theory Spec2Isabelle
  imports Main "HOL-Library.AList"
begin

section \<open>The parsed document\<close>

text \<open>
  The scraper works on a BeautifulSoup tree. A node is a text string or a tag with its
  name, the whitespace-separated tokens of its \<open>class\<close> attribute (empty when the
  attribute is absent), its other attributes and its contents. The soup object itself is
  the root tag. A character of a string stands for a code point below 256 (Latin-1);
  \<open>isspace\<close> and \<open>lower\<close> are Python's on these code points. Code points from 256 on
  are not represented.
\<close>

datatype node =
    Text string
  | Elem string "string list" "(string \<times> string) list" "node list"

fun tag_name :: "node \<Rightarrow> string option" where
  "tag_name (Text s) = None"
| "tag_name (Elem n cl at ks) = Some n"

fun classes :: "node \<Rightarrow> string list" where
  "classes (Text s) = []"
| "classes (Elem n cl at ks) = cl"

fun get_attr :: "node \<Rightarrow> string \<Rightarrow> string option" where
  "get_attr (Text s) a = None"
| "get_attr (Elem n cl at ks) a = map_of at a"

fun contents :: "node \<Rightarrow> node list" where
  "contents (Text s) = []"
| "contents (Elem n cl at ks) = ks"

text \<open>All nodes below a node, in document order (the order of \<open>find_all\<close>).\<close>

fun descendants :: "node \<Rightarrow> node list" where
  "descendants (Text s) = []"
| "descendants (Elem n cl at ks) = concat (map (\<lambda>k. k # descendants k) ks)"

text \<open>The strings below a node, in document order.\<close>

fun strings :: "node \<Rightarrow> string list" where
  "strings (Text s) = [s]"
| "strings (Elem n cl at ks) = concat (map strings ks)"

text \<open>
  \<open>str.isspace\<close> below 256: tab to carriage return, the four separators, the space, the
  next-line control and the no-break space.
\<close>

definition isspace :: "char \<Rightarrow> bool" where
  "isspace c =
     (let n = (of_char c :: nat)
      in (9 \<le> n \<and> n \<le> 13) \<or> (28 \<le> n \<and> n \<le> 32) \<or> n = 133 \<or> n = 160)"

definition strip :: "string \<Rightarrow> string" where
  "strip s = rev (dropWhile isspace (rev (dropWhile isspace s)))"

text \<open>
  \<open>str.lower\<close> below 256: the letters A to Z and the accented capitals (192 to 222
  without the multiplication sign 215) move up by 32.
\<close>

definition lower_char :: "char \<Rightarrow> char" where
  "lower_char c =
     (let n = (of_char c :: nat)
      in if (65 \<le> n \<and> n \<le> 90) \<or> (192 \<le> n \<and> n \<le> 222 \<and> n \<noteq> 215)
         then char_of (n + 32) else c)"

definition lower :: "string \<Rightarrow> string" where
  "lower s = map lower_char s"

text \<open>\<open>get_text()\<close> joins the strings; \<open>get_text(strip=True)\<close> strips each one first.\<close>

definition get_text :: "node \<Rightarrow> string" where
  "get_text n = concat (strings n)"

definition get_text_strip :: "node \<Rightarrow> string" where
  "get_text_strip n = concat (map strip (strings n))"

subsection \<open>Patterns\<close>

text \<open>
  The regular expressions of the scraper are alternatives of literals, one of them with a
  \<open>.*\<close> between two literals. A pattern is the list of its alternatives, an alternative
  the list of its literals in order; \<open>re_search\<close> is \<open>re.search\<close> on such a pattern.
\<close>

type_synonym pattern = "string list list"

definition startswith :: "string \<Rightarrow> string \<Rightarrow> bool" where
  "startswith s lit = (take (length lit) s = lit)"

text \<open>What follows the leftmost occurrence of a literal, if it occurs.\<close>

fun after_first :: "string \<Rightarrow> string \<Rightarrow> string option" where
  "after_first lit [] = (if lit = [] then Some [] else None)"
| "after_first lit (c # cs) =
     (if startswith (c # cs) lit then Some (drop (length lit) (c # cs))
      else after_first lit cs)"

fun search_seq :: "string list \<Rightarrow> string \<Rightarrow> bool" where
  "search_seq [] s = True"
| "search_seq (l # ls) s =
     (case after_first l s of None \<Rightarrow> False | Some rest \<Rightarrow> search_seq ls rest)"

definition re_search :: "pattern \<Rightarrow> string \<Rightarrow> bool" where
  "re_search pat s = list_ex (\<lambda>alt. search_seq alt s) pat"

text \<open>The substring test \<open>lit in s\<close>.\<close>

definition contains :: "string \<Rightarrow> string \<Rightarrow> bool" where
  "contains s lit = search_seq [lit] s"

fun join_space :: "string list \<Rightarrow> string" where
  "join_space [] = []"
| "join_space [x] = x"
| "join_space (x # y # ys) = x @ '' '' @ join_space (y # ys)"

text \<open>
  A \<open>class_\<close> criterion holds of a tag when one class token matches, or the tokens joined
  by spaces do.
\<close>

definition class_matches :: "pattern \<Rightarrow> node \<Rightarrow> bool" where
  "class_matches pat n =
     (list_ex (re_search pat) (classes n) \<or> re_search pat (join_space (classes n)))"

fun is_tag :: "node \<Rightarrow> bool" where
  "is_tag (Text s) = False"
| "is_tag (Elem n cl at ks) = True"

definition has_name :: "string list \<Rightarrow> node \<Rightarrow> bool" where
  "has_name names n = (case tag_name n of None \<Rightarrow> False | Some t \<Rightarrow> t \<in> set names)"

definition has_class :: "pattern \<Rightarrow> node \<Rightarrow> bool" where
  "has_class pat n = (is_tag n \<and> class_matches pat n)"

subsection \<open>Queries\<close>

definition find_all :: "(node \<Rightarrow> bool) \<Rightarrow> node \<Rightarrow> node list" where
  "find_all crit n = filter crit (descendants n)"

text \<open>\<open>find_all(..., recursive=False)\<close>: direct children only.\<close>

definition find_all_direct :: "(node \<Rightarrow> bool) \<Rightarrow> node \<Rightarrow> node list" where
  "find_all_direct crit n = filter crit (contents n)"

definition find_first :: "(node \<Rightarrow> bool) \<Rightarrow> node \<Rightarrow> node option" where
  "find_first crit n = (case find_all crit n of [] \<Rightarrow> None | x # xs \<Rightarrow> Some x)"

text \<open>\<open>a or b\<close> on the results of two \<open>find\<close> calls (a tag is always truthy).\<close>

definition or_else :: "'a option \<Rightarrow> 'a option \<Rightarrow> 'a option" where
  "or_else a b = (case a of Some x \<Rightarrow> Some x | None \<Rightarrow> b)"

section \<open>Page type detection\<close>

definition re_product_item :: pattern where
  "re_product_item = [[''product''], [''item'']]"

definition re_card :: pattern where "re_card = [[''card'']]"
definition re_tile :: pattern where "re_tile = [[''tile'']]"
definition re_grid_item :: pattern where "re_grid_item = [[''grid-item'']]"
definition re_box :: pattern where "re_box = [[''box'']]"

definition ecommerce_indicators :: "string list" where
  "ecommerce_indicators = [''product'', ''item'', ''price'', ''cart'', ''buy'']"

definition article_indicators :: "string list" where
  "article_indicators = [''article'', ''post'', ''blog'', ''content'']"

text \<open>The loop over the tables: the first table with more than two rows decides.\<close>

fun tables_loop :: "node list \<Rightarrow> string option" where
  "tables_loop [] = None"
| "tables_loop (table # rest) =
     (let rows = find_all (has_name [''tr'']) table in
      if length rows > 2 then Some ''table'' else tables_loop rest)"

fun cards_loop :: "node list list \<Rightarrow> string option" where
  "cards_loop [] = None"
| "cards_loop (cards # rest) =
     (if length cards > 3 then Some ''cards'' else cards_loop rest)"

fun lists_loop :: "node list \<Rightarrow> string option" where
  "lists_loop [] = None"
| "lists_loop (lst # rest) =
     (let items = find_all (has_name [''li'']) lst in
      if length items > 5 then Some ''list'' else lists_loop rest)"

definition check_tables :: "node \<Rightarrow> string option" where
  "check_tables soup =
     (let tables = find_all (has_name [''table'']) soup in
      if length tables > 0 then tables_loop tables else None)"

definition check_ecommerce :: "node \<Rightarrow> string option" where
  "check_ecommerce soup =
     (let page_text = lower (get_text soup) in
      if list_ex (\<lambda>indicator. contains page_text indicator) ecommerce_indicators then
        (let products = find_all (has_class re_product_item) soup in
         if length products > 3 then Some ''ecommerce'' else None)
      else None)"

definition check_cards :: "node \<Rightarrow> string option" where
  "check_cards soup =
     (let card_selectors =
        [find_all (has_class re_card) soup,
         find_all (has_class re_tile) soup,
         find_all (has_class re_grid_item) soup]
      in cards_loop card_selectors)"

definition check_lists :: "node \<Rightarrow> string option" where
  "check_lists soup =
     (let lists = find_all (has_name [''ul'', ''ol'']) soup in lists_loop lists)"

definition check_article :: "node \<Rightarrow> string option" where
  "check_article soup =
     (if find_first (has_name [''article'']) soup \<noteq> None
         \<or> list_ex (\<lambda>indicator. find_first (has_class [[indicator]]) soup \<noteq> None)
              article_indicators
      then Some ''article'' else None)"

text \<open>
  \<open>_detect_page_type(soup, url)\<close>: each check returns at once when it fires, the next
  one runs only when it does not.
\<close>

definition detect_page_type :: "node \<Rightarrow> string \<Rightarrow> string" where
  "detect_page_type soup url =
     (case check_tables soup of Some t \<Rightarrow> t | None \<Rightarrow>
      (case check_ecommerce soup of Some t \<Rightarrow> t | None \<Rightarrow>
       (case check_cards soup of Some t \<Rightarrow> t | None \<Rightarrow>
        (case check_lists soup of Some t \<Rightarrow> t | None \<Rightarrow>
         (case check_article soup of Some t \<Rightarrow> t | None \<Rightarrow> ''generic'')))))"

section \<open>Records\<close>

text \<open>
  The values the scraper stores and a record as the dictionary it is: the keys in the
  order of their first assignment, each with its last assigned value.
\<close>

datatype val =
    NoneV
  | StrV string
  | IntV int
  | ListV "val list"
  | DictV "(string \<times> val) list"

type_synonym pydict = "(string \<times> val) list"

definition setitem :: "string \<Rightarrow> val \<Rightarrow> pydict \<Rightarrow> pydict" where
  "setitem k v d = AList.update k v d"

text \<open>\<open>d.get(k)\<close> as a condition: the key is there with a non-empty string (or another
  truthy value).\<close>

fun truthy :: "val \<Rightarrow> bool" where
  "truthy NoneV = False"
| "truthy (StrV s) = (s \<noteq> [])"
| "truthy (IntV i) = (i \<noteq> 0)"
| "truthy (ListV xs) = (xs \<noteq> [])"
| "truthy (DictV d) = (d \<noteq> [])"

definition get_truthy :: "pydict \<Rightarrow> string \<Rightarrow> bool" where
  "get_truthy d k = (case map_of d k of None \<Rightarrow> False | Some v \<Rightarrow> truthy v)"

text \<open>The decimal digits of a number, for \<open>Column_1\<close>, \<open>Column_2\<close>, ...\<close>

fun str_nat :: "nat \<Rightarrow> string" where
  "str_nat n =
     (if n < 10 then [char_of (48 + n)]
      else str_nat (n div 10) @ [char_of (48 + n mod 10)])"

declare str_nat.simps [simp del]

section \<open>Table extraction\<close>

definition cell_names :: "string list" where
  "cell_names = [''th'', ''td'']"

text \<open>The loop over the cells of one row: a cell beyond the headers is dropped.\<close>

fun cells_loop :: "string list \<Rightarrow> (nat \<times> node) list \<Rightarrow> pydict \<Rightarrow> pydict" where
  "cells_loop headers [] row_data = row_data"
| "cells_loop headers ((idx, cell) # rest) row_data =
     cells_loop headers rest
       (if idx < length headers
        then setitem (headers ! idx) (StrV (get_text_strip cell)) row_data
        else row_data)"

text \<open>The loop over the rows after the first.\<close>

fun rows_loop :: "nat \<Rightarrow> string list \<Rightarrow> node list \<Rightarrow> pydict list" where
  "rows_loop table_idx headers [] = []"
| "rows_loop table_idx headers (row # rest) =
     (let cells = find_all (has_name cell_names) row in
      if length cells = 0 then rows_loop table_idx headers rest
      else
        (let row_data = cells_loop headers (enumerate 0 cells) [] in
         if row_data \<noteq> []
         then setitem ''_table_index'' (IntV (int table_idx)) row_data
                # rows_loop table_idx headers rest
         else rows_loop table_idx headers rest))"

definition table_headers :: "node \<Rightarrow> string list" where
  "table_headers header_row =
     (let headers = map get_text_strip (find_all (has_name cell_names) header_row) in
      if headers = [] \<or> list_all (\<lambda>h. h = []) headers
      then map (\<lambda>i. ''Column_'' @ str_nat (i + 1))
             [0 ..< length (find_all (has_name cell_names) header_row)]
      else headers)"

text \<open>The body of the loop over the tables, for one table.\<close>

definition scrape_table :: "nat \<Rightarrow> node \<Rightarrow> pydict list" where
  "scrape_table table_idx table =
     (let rows = find_all (has_name [''tr'']) table in
      if length rows < 2 then []
      else (case rows of
              [] \<Rightarrow> []
            | header_row # data_rows \<Rightarrow>
                rows_loop table_idx (table_headers header_row) data_rows))"

definition scrape_tables :: "node \<Rightarrow> pydict list" where
  "scrape_tables soup =
     concat (map (\<lambda>(table_idx, table). scrape_table table_idx table)
               (enumerate 0 (find_all (has_name [''table'']) soup)))"

section \<open>List extraction\<close>

text \<open>The record of one item: its text, the two indices, and its first link if any.\<close>

definition list_item_record :: "nat \<Rightarrow> nat \<Rightarrow> node \<Rightarrow> pydict" where
  "list_item_record list_idx item_idx item =
     (let item_data =
            [(''text'', StrV (get_text_strip item)),
             (''_list_index'', IntV (int list_idx)),
             (''_item_index'', IntV (int item_idx))]
      in case find_first (has_name [''a'']) item of
           None \<Rightarrow> item_data
         | Some link \<Rightarrow>
             (case get_attr link ''href'' of
                None \<Rightarrow> item_data
              | Some href \<Rightarrow>
                  if href \<noteq> [] then setitem ''link'' (StrV href) item_data else item_data))"

definition scrape_list :: "nat \<Rightarrow> node \<Rightarrow> pydict list" where
  "scrape_list list_idx lst =
     (let items = find_all_direct (has_name [''li'']) lst in
      if length items < 3 then []
      else map (\<lambda>(item_idx, item). list_item_record list_idx item_idx item)
             (enumerate 0 items))"

definition scrape_lists :: "node \<Rightarrow> pydict list" where
  "scrape_lists soup =
     concat (map (\<lambda>(list_idx, lst). scrape_list list_idx lst)
               (enumerate 0 (find_all (has_name [''ul'', ''ol'']) soup)))"

section \<open>Card extraction\<close>

definition heading_names :: "string list" where
  "heading_names = [''h1'', ''h2'', ''h3'', ''h4'', ''h5'', ''h6'']"

definition re_title_heading :: pattern where
  "re_title_heading = [[''title''], [''heading'']]"

definition re_description :: pattern where
  "re_description = [[''description''], [''excerpt''], [''summary'']]"

definition card_selectors :: "pattern list" where
  "card_selectors = [re_card, re_tile, re_grid_item, re_box]"

text \<open>\<open>find_all('div', {'class': selector})\<close>: a div whose class matches.\<close>

definition is_div_with :: "pattern \<Rightarrow> node \<Rightarrow> bool" where
  "is_div_with selector n = (has_name [''div''] n \<and> has_class selector n)"

text \<open>The loop over the selectors: a later set replaces the current one only when longer.\<close>

fun best_loop :: "pattern list \<Rightarrow> node \<Rightarrow> node list \<Rightarrow> node list" where
  "best_loop [] soup cards = cards"
| "best_loop (selector # rest) soup cards =
     (let found = find_all (is_div_with selector) soup in
      best_loop rest soup (if length found > length cards then found else cards))"

definition find_cards :: "node \<Rightarrow> node list" where
  "find_cards soup = best_loop card_selectors soup []"

definition opt_val :: "string option \<Rightarrow> val" where
  "opt_val a = (case a of None \<Rightarrow> NoneV | Some s \<Rightarrow> StrV s)"

text \<open>\<open>img.get('src') or img.get('data-src')\<close>\<close>

definition src_or_data_src :: "node \<Rightarrow> val" where
  "src_or_data_src img =
     (case get_attr img ''src'' of
        Some s \<Rightarrow> if s \<noteq> [] then StrV s else opt_val (get_attr img ''data-src'')
      | None \<Rightarrow> opt_val (get_attr img ''data-src''))"

text \<open>The link step shared by cards and products: the first \<open>a\<close>, if its href is non-empty.\<close>

definition set_link :: "node \<Rightarrow> pydict \<Rightarrow> pydict" where
  "set_link n d =
     (case find_first (has_name [''a'']) n of
        None \<Rightarrow> d
      | Some link \<Rightarrow>
          (case get_attr link ''href'' of
             None \<Rightarrow> d
           | Some href \<Rightarrow> if href \<noteq> [] then setitem ''link'' (StrV href) d else d))"

definition set_image :: "node \<Rightarrow> pydict \<Rightarrow> pydict" where
  "set_image n d =
     (case find_first (has_name [''img'']) n of
        None \<Rightarrow> d
      | Some img \<Rightarrow> setitem ''image'' (src_or_data_src img) d)"

text \<open>A step \<open>x = find(...); if x: d[key] = x.get_text(strip=True)\<close>.\<close>

definition set_text :: "string \<Rightarrow> node option \<Rightarrow> pydict \<Rightarrow> pydict" where
  "set_text key found d =
     (case found of None \<Rightarrow> d | Some x \<Rightarrow> setitem key (StrV (get_text_strip x)) d)"

definition card_record :: "nat \<Rightarrow> node \<Rightarrow> pydict" where
  "card_record card_idx card_tag =
     (let d0 = [(''_card_index'', IntV (int card_idx))];
          title = or_else (find_first (has_name heading_names) card_tag)
                    (find_first (has_class re_title_heading) card_tag);
          d1 = set_text ''title'' title d0;
          desc = find_first (has_class re_description) card_tag;
          d2 = set_text ''description'' desc d1;
          d3 = set_link card_tag d2;
          d4 = set_image card_tag d3
      in if map_of d4 ''title'' = None
         then setitem ''text'' (StrV (take 200 (get_text_strip card_tag))) d4
         else d4)"

definition scrape_cards :: "node \<Rightarrow> pydict list" where
  "scrape_cards soup =
     map (\<lambda>(card_idx, c). card_record card_idx c) (enumerate 0 (find_cards soup))"

section \<open>Product extraction\<close>

definition re_product_name :: pattern where
  "re_product_name = [[''product'', ''name''], [''title'']]"

definition re_price :: pattern where "re_price = [[''price'']]"

definition re_rating :: pattern where "re_rating = [[''rating''], [''stars'']]"

definition product_record :: "nat \<Rightarrow> node \<Rightarrow> pydict" where
  "product_record prod_idx product =
     (let d0 = [(''_product_index'', IntV (int prod_idx))];
          name = or_else (find_first (has_class re_product_name) product)
                   (find_first (has_name [''h2'', ''h3'', ''h4'']) product);
          d1 = set_text ''name'' name d0;
          price = find_first (has_class re_price) product;
          d2 = set_text ''price'' price d1;
          rating = find_first (has_class re_rating) product;
          d3 = set_text ''rating'' rating d2;
          d4 = set_link product d3
      in set_image product d4)"

text \<open>\<open>prod_data.get('name') or prod_data.get('price')\<close>\<close>

definition keep_product :: "pydict \<Rightarrow> bool" where
  "keep_product prod_data = (get_truthy prod_data ''name'' \<or> get_truthy prod_data ''price'')"

fun products_loop :: "(nat \<times> node) list \<Rightarrow> pydict list" where
  "products_loop [] = []"
| "products_loop ((prod_idx, product) # rest) =
     (let prod_data = product_record prod_idx product in
      if keep_product prod_data then prod_data # products_loop rest
      else products_loop rest)"

definition scrape_products :: "node \<Rightarrow> pydict list" where
  "scrape_products soup =
     products_loop (enumerate 0 (find_all (has_class re_product_item) soup))"

section \<open>Article extraction\<close>

definition re_title :: pattern where "re_title = [[''title'']]"

definition re_author :: pattern where
  "re_author = [[''author''], [''byline''], [''writer'']]"

definition re_date :: pattern where "re_date = [[''date''], [''published'']]"

definition re_content :: pattern where
  "re_content = [[''content''], [''article''], [''post-body'']]"

text \<open>\<open>s.split()\<close>: the maximal runs of non-space characters.\<close>

fun split_ws :: "string \<Rightarrow> string \<Rightarrow> string list" where
  "split_ws cur [] = (if cur = [] then [] else [cur])"
| "split_ws cur (c # cs) =
     (if isspace c then (if cur = [] then split_ws [] cs else cur # split_ws [] cs)
      else split_ws (cur @ [c]) cs)"

definition split :: "string \<Rightarrow> string list" where
  "split s = split_ws [] s"

text \<open>Joining with two newlines.\<close>

fun join_paragraphs :: "string list \<Rightarrow> string" where
  "join_paragraphs [] = []"
| "join_paragraphs [x] = x"
| "join_paragraphs (x # y # ys) = x @ [CHR 0x0A, CHR 0x0A] @ join_paragraphs (y # ys)"

definition set_content :: "node \<Rightarrow> pydict \<Rightarrow> pydict" where
  "set_content soup d =
     (case or_else (or_else (find_first (has_name [''article'']) soup)
                      (find_first (has_class re_content) soup))
             (find_first (has_name [''main'']) soup) of
        None \<Rightarrow> d
      | Some content \<Rightarrow>
          (let paragraphs = find_all (has_name [''p'']) content;
               text = join_paragraphs (map get_text_strip paragraphs);
               d1 = setitem ''content'' (StrV text) d
           in setitem ''word_count'' (IntV (int (length (split text)))) d1))"

definition scrape_article :: "node \<Rightarrow> string \<Rightarrow> pydict" where
  "scrape_article soup url =
     (let d0 = [(''url'', StrV url)];
          title = or_else (or_else (find_first (has_name [''h1'']) soup)
                             (find_first (has_class re_title) soup))
                    (find_first (has_name [''title'']) soup);
          d1 = set_text ''title'' title d0;
          author = find_first (has_class re_author) soup;
          d2 = set_text ''author'' author d1;
          date = or_else (find_first (has_name [''time'', ''date'']) soup)
                   (find_first (has_class re_date) soup);
          d3 = set_text ''date'' date d2;
          d4 = set_content soup d3;
          images = find_all (has_name [''img'']) soup
      in setitem ''images''
           (ListV (map src_or_data_src (filter (\<lambda>img. truthy (src_or_data_src img)) images)))
           d4)"

section \<open>Generic extraction\<close>

text \<open>The nodes below a node in document order, each with its next sibling tag.\<close>

fun next_tag :: "node list \<Rightarrow> node option" where
  "next_tag [] = None"
| "next_tag (Text s # rest) = next_tag rest"
| "next_tag (Elem n cl at ks # rest) = Some (Elem n cl at ks)"

fun with_siblings :: "node \<Rightarrow> (node \<times> node option) list"
  and with_siblings_list :: "node list \<Rightarrow> (node \<times> node option) list" where
  "with_siblings (Text s) = []"
| "with_siblings (Elem n cl at ks) = with_siblings_list ks"
| "with_siblings_list [] = []"
| "with_siblings_list (k # rest) =
     (k, next_tag rest) # with_siblings k @ with_siblings_list rest"

definition heading_record :: "node \<Rightarrow> node option \<Rightarrow> pydict" where
  "heading_record heading sibling =
     (let item = [(''type'', opt_val (tag_name heading)),
                  (''text'', StrV (get_text_strip heading))]
      in case sibling of
           None \<Rightarrow> item
         | Some sib \<Rightarrow> setitem ''content'' (StrV (take 500 (get_text_strip sib))) item)"

text \<open>The loop over the links: the last text of a link target wins, at its first place.\<close>

fun links_loop :: "node list \<Rightarrow> (string \<times> string) list \<Rightarrow> (string \<times> string) list" where
  "links_loop [] unique_links = unique_links"
| "links_loop (link # rest) unique_links =
     (let text = get_text_strip link in
      links_loop rest
        (case get_attr link ''href'' of
           None \<Rightarrow> unique_links
         | Some href \<Rightarrow>
             if href \<noteq> [] \<and> text \<noteq> [] \<and> length text > 2
             then AList.update href text unique_links
             else unique_links))"

definition scrape_generic :: "node \<Rightarrow> pydict list" where
  "scrape_generic soup =
     (let data = map (\<lambda>(heading, sibling). heading_record heading sibling)
                   (filter (\<lambda>(n, sibling). has_name heading_names n) (with_siblings soup));
          links = find_all (\<lambda>n. has_name [''a''] n \<and> get_attr n ''href'' \<noteq> None) soup;
          unique_links = links_loop links []
      in if unique_links \<noteq> []
         then data @
           [[(''type'', StrV ''links''),
             (''links'', ListV (map (\<lambda>(k, v). DictV [(''url'', StrV k), (''text'', StrV v)])
                                  unique_links))]]
         else data)"

section \<open>Extraction with given selectors\<close>

text \<open>
  The CSS selector engine is the parsing library's, not the scraper's: it is a parameter,
  a function from a selector and a node to the matching nodes below it in document order,
  or to the syntax error it raises, which carries the engine's message.
\<close>

datatype selector_error = SelectorSyntaxError string

type_synonym engine = "string \<Rightarrow> node \<Rightarrow> selector_error + node list"

definition select_one :: "engine \<Rightarrow> string \<Rightarrow> node \<Rightarrow> selector_error + node option" where
  "select_one sel selector n =
     (case sel selector n of
        Inl e \<Rightarrow> Inl e
      | Inr [] \<Rightarrow> Inr None
      | Inr (x # xs) \<Rightarrow> Inr (Some x))"

text \<open>The lines printed that tell which path ran; the progress lines of the strategies
  are left out.\<close>

datatype line =
    Auto_detecting
  | Detected string
  | Using_custom_selectors
  | Extracted_with_selectors nat
  | Loading_page nat
  | No_more_pages
  | Scraped nat
  | Error_scraping selector_error

text \<open>The loop over the fields of one container.\<close>

fun fields_loop :: "engine \<Rightarrow> node \<Rightarrow> (string \<times> string) list \<Rightarrow> pydict \<Rightarrow> selector_error + pydict" where
  "fields_loop sel container [] item = Inr item"
| "fields_loop sel container ((field_name, selector) # rest) item =
     (if field_name = ''container'' then fields_loop sel container rest item
      else
        (case select_one sel selector container of
           Inl e \<Rightarrow> Inl e
         | Inr None \<Rightarrow> fields_loop sel container rest item
         | Inr (Some elem) \<Rightarrow>
             fields_loop sel container rest
               (setitem field_name (StrV (get_text_strip elem)) item)))"

fun containers_loop :: "engine \<Rightarrow> (string \<times> string) list \<Rightarrow> node list \<Rightarrow> selector_error + pydict list" where
  "containers_loop sel selectors [] = Inr []"
| "containers_loop sel selectors (container # rest) =
     (case fields_loop sel container selectors [] of
        Inl e \<Rightarrow> Inl e
      | Inr item \<Rightarrow>
          (case containers_loop sel selectors rest of
             Inl e \<Rightarrow> Inl e
           | Inr data \<Rightarrow> Inr (if item \<noteq> [] then item # data else data)))"

text \<open>\<open>_scrape_with_selectors\<close>: the lines it prints, and its records or the error raised.\<close>

definition scrape_with_selectors ::
  "engine \<Rightarrow> node \<Rightarrow> (string \<times> string) list \<Rightarrow> line list \<times> (selector_error + pydict list)" where
  "scrape_with_selectors sel soup selectors =
     (let main_selector = (case map_of selectors ''container'' of
                             None \<Rightarrow> ''body'' | Some c \<Rightarrow> c)
      in case sel main_selector soup of
           Inl e \<Rightarrow> ([Using_custom_selectors], Inl e)
         | Inr containers \<Rightarrow>
             (case containers_loop sel selectors containers of
                Inl e \<Rightarrow> ([Using_custom_selectors], Inl e)
              | Inr data \<Rightarrow>
                  ([Using_custom_selectors, Extracted_with_selectors (length data)],
                   Inr data)))"

section \<open>Dispatch\<close>

definition auto_detect_and_scrape :: "node \<Rightarrow> string \<Rightarrow> line list \<times> pydict list" where
  "auto_detect_and_scrape soup url =
     (let page_type = detect_page_type soup url;
          data =
            (if page_type = ''table'' then scrape_tables soup
             else if page_type = ''list'' then scrape_lists soup
             else if page_type = ''cards'' then scrape_cards soup
             else if page_type = ''article'' then [scrape_article soup url]
             else if page_type = ''ecommerce'' then scrape_products soup
             else scrape_generic soup)
      in ([Auto_detecting, Detected page_type], data))"

text \<open>
  The configuration: the optional \<open>selectors\<close> dictionary, the \<open>pagination\<close> flag
  and \<open>max_pages\<close> (5 when absent).
\<close>

record config =
  selectors :: "(string \<times> string) list option"
  pagination :: bool
  max_pages :: "int option"

text \<open>The choice between the given selectors and auto-detection, for one document.\<close>

definition extract_page ::
  "engine \<Rightarrow> node \<Rightarrow> string \<Rightarrow> config option \<Rightarrow> line list \<times> (selector_error + pydict list)" where
  "extract_page sel soup url cfg =
     (case cfg of
        None \<Rightarrow> (let (out, data) = auto_detect_and_scrape soup url in (out, Inr data))
      | Some c \<Rightarrow>
          (case selectors c of
             Some s \<Rightarrow> scrape_with_selectors sel soup s
           | None \<Rightarrow> (let (out, data) = auto_detect_and_scrape soup url in (out, Inr data))))"

text \<open>
  The pagination loop runs for the page numbers 2 to \<open>max_pages\<close>. The browser is
  outside the scraper: \<open>pages\<close> are the documents that the successive clicks on a next
  button deliver, and the list ends where no button can be clicked.
\<close>

fun pagination_loop :: "nat \<Rightarrow> nat \<Rightarrow> (node \<times> string) list \<Rightarrow> line list \<times> pydict list" where
  "pagination_loop 0 page_num pages = ([], [])"
| "pagination_loop (Suc n) page_num [] = ([Loading_page page_num, No_more_pages], [])"
| "pagination_loop (Suc n) page_num ((soup, url) # rest) =
     (let (out1, page_data) = auto_detect_and_scrape soup url;
          (out2, all_data) = pagination_loop n (Suc page_num) rest
      in (Loading_page page_num # out1 @ out2, page_data @ all_data))"

definition handle_pagination :: "config \<Rightarrow> (node \<times> string) list \<Rightarrow> line list \<times> pydict list" where
  "handle_pagination c pages =
     (let max_pages = (case max_pages c of None \<Rightarrow> 5 | Some m \<Rightarrow> m)
      in pagination_loop (nat (max_pages - 1)) 2 pages)"

text \<open>
  \<open>scrape_url\<close> from the parsed page on: \<open>self_data\<close> is the scraper's list before the
  call, the result the lines printed and the list returned. An error raised in the
  \<open>try\<close> block is printed and nothing is added.
\<close>

definition scrape_url ::
  "engine \<Rightarrow> pydict list \<Rightarrow> node \<Rightarrow> string \<Rightarrow> config option \<Rightarrow> (node \<times> string) list
     \<Rightarrow> line list \<times> pydict list" where
  "scrape_url sel self_data soup url cfg pages =
     (case extract_page sel soup url cfg of
        (out, Inl e) \<Rightarrow> (out @ [Error_scraping e], self_data)
      | (out, Inr data) \<Rightarrow>
          (let (out2, more) =
                 (case cfg of
                    None \<Rightarrow> ([], [])
                  | Some c \<Rightarrow> if pagination c then handle_pagination c pages else ([], []));
               data = data @ more
           in (out @ out2 @ [Scraped (length data)], self_data @ data)))"

text \<open>
  An engine for type selectors only, to run the extraction on examples: a selector made
  of letters and digits selects the tags of that name, any other selector is refused with
  the error that carries the selector.
\<close>

definition is_alnum :: "char \<Rightarrow> bool" where
  "is_alnum c =
     (let n = (of_char c :: nat)
      in (48 \<le> n \<and> n \<le> 57) \<or> (65 \<le> n \<and> n \<le> 90) \<or> (97 \<le> n \<and> n \<le> 122))"

definition type_select :: "engine" where
  "type_select selector n =
     (if selector \<noteq> [] \<and> list_all is_alnum selector
      then Inr (find_all (has_name [selector]) n)
      else Inl (SelectorSyntaxError selector))"

section \<open>The shape of records\<close>

text \<open>
  What is stated of the fields of a record: a value is a string; an integer under one of
  the index fields or \<open>word_count\<close>; a list of strings under \<open>images\<close>; or a list of
  dictionaries of a \<open>url\<close> and a \<open>text\<close> string under \<open>links\<close>.
\<close>

definition index_fields :: "string list" where
  "index_fields =
     [''_table_index'', ''_list_index'', ''_item_index'', ''_card_index'', ''_product_index'']"

fun is_str :: "val \<Rightarrow> bool" where
  "is_str (StrV s) = True"
| "is_str v = False"

fun is_link_dict :: "val \<Rightarrow> bool" where
  "is_link_dict (DictV d) = (map fst d = [''url'', ''text''] \<and> list_all (\<lambda>(k, v). is_str v) d)"
| "is_link_dict v = False"

fun value_ok :: "string \<Rightarrow> val \<Rightarrow> bool" where
  "value_ok k (StrV s) = True"
| "value_ok k (IntV i) = (k \<in> set index_fields \<or> k = ''word_count'')"
| "value_ok k (ListV xs) =
     ((k = ''images'' \<and> list_all is_str xs) \<or> (k = ''links'' \<and> list_all is_link_dict xs))"
| "value_ok k NoneV = False"
| "value_ok k (DictV d) = False"

definition all_entries :: "(string \<Rightarrow> val \<Rightarrow> bool) \<Rightarrow> pydict \<Rightarrow> bool" where
  "all_entries Q d = list_all (\<lambda>(k, v). Q k v) d"

definition field_ok :: "string \<Rightarrow> val \<Rightarrow> bool" where
  "field_ok k v = (k \<noteq> [] \<and> (k = ''image'' \<or> value_ok k v))"

section \<open>Example documents\<close>

text \<open>A page with a three-row table next to card, product, list and article markup.\<close>

definition doc_all_signals :: node where
  "doc_all_signals =
     Elem ''[document]'' [] []
       [Elem ''table'' [] []
          [Elem ''tr'' [] [] [], Elem ''tr'' [] [] [], Elem ''tr'' [] [] []],
        Elem ''div'' [''card'', ''product''] [] [Text ''buy''],
        Elem ''div'' [''card'', ''product''] [] [Text ''price''],
        Elem ''div'' [''card'', ''product''] [] [],
        Elem ''div'' [''card'', ''product''] [] [],
        Elem ''ul'' [] []
          [Elem ''li'' [] [] [], Elem ''li'' [] [] [], Elem ''li'' [] [] [],
           Elem ''li'' [] [] [], Elem ''li'' [] [] [], Elem ''li'' [] [] []],
        Elem ''article'' [] [] []]"

text \<open>Shopping words in the text, but only three product elements.\<close>

definition doc_text_only :: node where
  "doc_text_only =
     Elem ''[document]'' [] []
       [Elem ''p'' [] [] [Text ''Best PRICE, buy now''],
        Elem ''div'' [''product''] [] [],
        Elem ''div'' [''product''] [] [],
        Elem ''div'' [''product''] [] []]"

text \<open>Four product elements, but no shopping word in the text.\<close>

definition doc_struct_only :: node where
  "doc_struct_only =
     Elem ''[document]'' [] []
       [Elem ''p'' [] [] [Text ''hello''],
        Elem ''div'' [''menu-item''] [] [],
        Elem ''div'' [''menu-item''] [] [],
        Elem ''div'' [''menu-item''] [] [],
        Elem ''div'' [''menu-item''] [] []]"

definition doc_shop :: node where
  "doc_shop =
     Elem ''[document]'' [] []
       [Elem ''p'' [] [] [Text ''Add to Cart''],
        Elem ''div'' [''product''] [] [],
        Elem ''div'' [''product''] [] [],
        Elem ''div'' [''product''] [] [],
        Elem ''div'' [''product''] [] []]"

text \<open>Two items, each holding a sublist of two items: no list has more than two children.\<close>

definition doc_nested_list :: node where
  "doc_nested_list =
     Elem ''[document]'' [] []
       [Elem ''ul'' [] []
          [Elem ''li'' [] []
             [Text ''a'', Elem ''ul'' [] [] [Elem ''li'' [] [] [Text ''a1''], Elem ''li'' [] [] [Text ''a2'']]],
           Elem ''li'' [] []
             [Text ''b'', Elem ''ul'' [] [] [Elem ''li'' [] [] [Text ''b1''], Elem ''li'' [] [] [Text ''b2'']]]]]"

text \<open>A table with a header row, a row of two empty cells and a row of two filled cells.\<close>

definition doc_blank_row :: node where
  "doc_blank_row =
     Elem ''[document]'' [] []
       [Elem ''table'' [] []
          [Elem ''tr'' [] []
             [Elem ''th'' [] [] [Text ''Name''], Elem ''th'' [] [] [Text ''Score'']],
           Elem ''tr'' [] []
             [Elem ''td'' [] [] [], Elem ''td'' [] [] [Text ''  '']],
           Elem ''tr'' [] []
             [Elem ''td'' [] [] [Text ''Bob''], Elem ''td'' [] [] [Text '' 7 '']]]]"

text \<open>A list of exactly three items; the second holds a sublist of two items.\<close>

definition doc_three_items :: node where
  "doc_three_items =
     Elem ''[document]'' [] []
       [Elem ''ul'' [] []
          [Elem ''li'' [] [] [Text ''one''],
           Elem ''li'' [] []
             [Elem ''a'' [] [(''href'', ''/two'')] [Text ''two''],
              Elem ''ol'' [] [] [Elem ''li'' [] [] [Text ''x''], Elem ''li'' [] [] [Text ''y'']]],
           Elem ''li'' [] [] [Text ''three'']]]"

text \<open>
  Two card divs and two tile divs tie; there is one box div, and three spans of class
  card that are no candidates.
\<close>

definition doc_tie :: node where
  "doc_tie =
     Elem ''[document]'' [] []
       [Elem ''span'' [''card''] [] [], Elem ''span'' [''card''] [] [],
        Elem ''span'' [''card''] [] [],
        Elem ''div'' [''tile''] [] [Text ''t1''],
        Elem ''div'' [''card''] [] [Text ''c1''],
        Elem ''div'' [''tile''] [] [Text ''t2''],
        Elem ''div'' [''card''] [] [Text ''c2''],
        Elem ''div'' [''box''] [] [Text ''b'']]"

text \<open>Four product elements; the first and the third have neither a name nor a price.\<close>

definition doc_products :: node where
  "doc_products =
     Elem ''[document]'' [] []
       [Elem ''div'' [''product''] [] [Text ''advert''],
        Elem ''div'' [''product''] [] [Elem ''h2'' [] [] [Text ''Lamp'']],
        Elem ''div'' [''item''] [] [Elem ''span'' [''price''] [] [Text ''  '']],
        Elem ''div'' [''item''] [] [Elem ''span'' [''price''] [] [Text ''9.99'']]]"

text \<open>A page with a body: a table of three rows and two sections with a heading.\<close>

definition doc_body :: node where
  "doc_body =
     Elem ''[document]'' [] []
       [Elem ''html'' [] []
          [Elem ''body'' [] []
             [Elem ''table'' [] []
                [Elem ''tr'' [] [] [Elem ''th'' [] [] [Text ''Name'']],
                 Elem ''tr'' [] [] [Elem ''td'' [] [] [Text ''Alice'']],
                 Elem ''tr'' [] [] [Elem ''td'' [] [] [Text ''Bob'']]],
              Elem ''section'' [] [] [Elem ''h2'' [] [] [Text '' First '']],
              Elem ''section'' [] [] [Elem ''p'' [] [] [Text ''no heading'']],
              Elem ''section'' [] [] [Elem ''h2'' [] [] [Text ''Third'']]]]]"


text \<open>A configuration whose field selector is malformed and whose container matches
  nothing, and one whose container matches.\<close>

definition cfg_bad_unused :: config where
  "cfg_bad_unused =
     \<lparr>selectors = Some [(''container'', ''aside''), (''heading'', ''h2['')],
      pagination = False, max_pages = None\<rparr>"

definition cfg_bad_field :: config where
  "cfg_bad_field =
     \<lparr>selectors = Some [(''container'', ''section''), (''heading'', ''h2['')],
      pagination = False, max_pages = None\<rparr>"

text \<open>An article page with two images, one of them without a source.\<close>

definition doc_article :: node where
  "doc_article =
     Elem ''[document]'' [] []
       [Elem ''article'' [] []
          [Elem ''h1'' [] [] [Text ''Title''],
           Elem ''p'' [] [] [Text ''two words''],
           Elem ''img'' [] [(''src'', ''a.png'')] [],
           Elem ''img'' [] [] []]]"

section \<open>Properties of the page type detection\<close>

lemma tables_loop_eq:
  "tables_loop ts =
     (if \<exists>t\<in>set ts. 2 < length (find_all (has_name [''tr'']) t) then Some ''table'' else None)"
  by (induction ts) (simp_all add: Let_def)

lemma cards_loop_eq:
  "cards_loop cs = (if \<exists>c\<in>set cs. 3 < length c then Some ''cards'' else None)"
  by (induction cs) simp_all

lemma lists_loop_eq:
  "lists_loop ls =
     (if \<exists>l\<in>set ls. 5 < length (find_all (has_name [''li'']) l) then Some ''list'' else None)"
  by (induction ls) (simp_all add: Let_def)

lemma check_tables_eq:
  "check_tables soup =
     (if \<exists>t\<in>set (find_all (has_name [''table'']) soup).
           2 < length (find_all (has_name [''tr'']) t)
      then Some ''table'' else None)"
  by (auto simp: check_tables_def Let_def tables_loop_eq)

lemma check_ecommerce_eq:
  "check_ecommerce soup =
     (if (\<exists>i\<in>set ecommerce_indicators. contains (lower (get_text soup)) i)
          \<and> 3 < length (find_all (has_class re_product_item) soup)
      then Some ''ecommerce'' else None)"
  by (simp add: check_ecommerce_def Let_def list_ex_iff)

lemma check_cards_eq:
  "check_cards soup =
     (if 3 < length (find_all (has_class re_card) soup)
          \<or> 3 < length (find_all (has_class re_tile) soup)
          \<or> 3 < length (find_all (has_class re_grid_item) soup)
      then Some ''cards'' else None)"
  by (simp add: check_cards_def Let_def)

lemma check_lists_eq:
  "check_lists soup =
     (if \<exists>l\<in>set (find_all (has_name [''ul'', ''ol'']) soup).
           5 < length (find_all (has_name [''li'']) l)
      then Some ''list'' else None)"
  by (simp add: check_lists_def Let_def lists_loop_eq)

text \<open>
  C1. The classifier depends on the document only, runs its checks in the order table,
  ecommerce, cards, list, article and answers with the first one that fires, generic
  otherwise; a document with a table of more than two rows is a table page whatever else
  it holds.
\<close>

theorem detect_page_type_priority:
  "detect_page_type soup url =
     (if \<exists>t\<in>set (find_all (has_name [''table'']) soup).
           2 < length (find_all (has_name [''tr'']) t) then ''table''
      else if (\<exists>i\<in>set ecommerce_indicators. contains (lower (get_text soup)) i)
           \<and> 3 < length (find_all (has_class re_product_item) soup) then ''ecommerce''
      else if 3 < length (find_all (has_class re_card) soup)
           \<or> 3 < length (find_all (has_class re_tile) soup)
           \<or> 3 < length (find_all (has_class re_grid_item) soup) then ''cards''
      else if \<exists>l\<in>set (find_all (has_name [''ul'', ''ol'']) soup).
           5 < length (find_all (has_name [''li'']) l) then ''list''
      else if find_first (has_name [''article'']) soup \<noteq> None
           \<or> (\<exists>i\<in>set article_indicators. find_first (has_class [[i]]) soup \<noteq> None)
        then ''article''
      else ''generic'')
   \<and> ((\<exists>t\<in>set (find_all (has_name [''table'']) soup).
           2 < length (find_all (has_name [''tr'']) t))
        \<longrightarrow> detect_page_type soup url = ''table'')
   \<and> detect_page_type soup url = detect_page_type soup url'"
proof -
  have article: "check_article soup =
     (if find_first (has_name [''article'']) soup \<noteq> None
         \<or> (\<exists>i\<in>set article_indicators. find_first (has_class [[i]]) soup \<noteq> None)
      then Some ''article'' else None)"
    by (simp add: check_article_def list_ex_iff)
  have chain: "detect_page_type soup u =
     (if \<exists>t\<in>set (find_all (has_name [''table'']) soup).
           2 < length (find_all (has_name [''tr'']) t) then ''table''
      else if (\<exists>i\<in>set ecommerce_indicators. contains (lower (get_text soup)) i)
           \<and> 3 < length (find_all (has_class re_product_item) soup) then ''ecommerce''
      else if 3 < length (find_all (has_class re_card) soup)
           \<or> 3 < length (find_all (has_class re_tile) soup)
           \<or> 3 < length (find_all (has_class re_grid_item) soup) then ''cards''
      else if \<exists>l\<in>set (find_all (has_name [''ul'', ''ol'']) soup).
           5 < length (find_all (has_name [''li'']) l) then ''list''
      else if find_first (has_name [''article'']) soup \<noteq> None
           \<or> (\<exists>i\<in>set article_indicators. find_first (has_class [[i]]) soup \<noteq> None)
        then ''article''
      else ''generic'')" for u
    unfolding detect_page_type_def check_tables_eq check_ecommerce_eq check_cards_eq
      check_lists_eq article
    by simp
  show ?thesis
    unfolding chain by simp
qed

theorem detect_page_type_priority_witness:
  "(\<exists>t\<in>set (find_all (has_name [''table'']) doc_all_signals).
       2 < length (find_all (has_name [''tr'']) t))
   \<and> 3 < length (find_all (has_class re_product_item) doc_all_signals)
   \<and> 3 < length (find_all (has_class re_card) doc_all_signals)
   \<and> (\<exists>l\<in>set (find_all (has_name [''ul'', ''ol'']) doc_all_signals).
       5 < length (find_all (has_name [''li'']) l))
   \<and> find_first (has_name [''article'']) doc_all_signals \<noteq> None
   \<and> detect_page_type doc_all_signals ''http://example.com'' = ''table''"
proof -
  have t: "\<exists>t\<in>set (find_all (has_name [''table'']) doc_all_signals).
       2 < length (find_all (has_name [''tr'']) t)"
    by code_simp
  have p: "3 < length (find_all (has_class re_product_item) doc_all_signals)"
    by code_simp
  have c: "3 < length (find_all (has_class re_card) doc_all_signals)"
    by code_simp
  have l: "\<exists>l\<in>set (find_all (has_name [''ul'', ''ol'']) doc_all_signals).
       5 < length (find_all (has_name [''li'']) l)"
    by code_simp
  have a: "find_first (has_name [''article'']) doc_all_signals \<noteq> None"
    by code_simp
  from detect_page_type_priority [of doc_all_signals "''http://example.com''"] t
  have "detect_page_type doc_all_signals ''http://example.com'' = ''table''"
    by blast
  with t p c l a show ?thesis by blast
qed

text \<open>
  C2. A page is classified ecommerce only when a shopping word occurs in its lower-cased
  text and more than three elements carry a product or item class, both at once (and
  then exactly when no table with more than two rows comes first).
\<close>

theorem ecommerce_requires_both:
  "detect_page_type soup url = ''ecommerce'' \<longleftrightarrow>
     \<not> (\<exists>t\<in>set (find_all (has_name [''table'']) soup).
           2 < length (find_all (has_name [''tr'']) t))
     \<and> (\<exists>i\<in>set ecommerce_indicators. contains (lower (get_text soup)) i)
     \<and> 3 < length (find_all (has_class re_product_item) soup)"
proof -
  have "check_cards soup \<noteq> Some ''ecommerce''" "check_lists soup \<noteq> Some ''ecommerce''"
    "check_article soup \<noteq> Some ''ecommerce''"
    by (simp_all add: check_cards_eq check_lists_eq check_article_def)
  then show ?thesis
    unfolding detect_page_type_def check_tables_eq check_ecommerce_eq
    by (auto split: option.splits)
qed

theorem ecommerce_requires_both_witness:
  "detect_page_type doc_text_only [] \<noteq> ''ecommerce''
   \<and> detect_page_type doc_struct_only [] \<noteq> ''ecommerce''
   \<and> detect_page_type doc_shop [] = ''ecommerce''"
proof -
  have a: "\<not> 3 < length (find_all (has_class re_product_item) doc_text_only)"
    by code_simp
  have b: "\<not> (\<exists>i\<in>set ecommerce_indicators. contains (lower (get_text doc_struct_only)) i)"
    by code_simp
  have c: "\<not> (\<exists>t\<in>set (find_all (has_name [''table'']) doc_shop).
           2 < length (find_all (has_name [''tr'']) t))"
    "\<exists>i\<in>set ecommerce_indicators. contains (lower (get_text doc_shop)) i"
    "3 < length (find_all (has_class re_product_item) doc_shop)"
    by code_simp+
  show ?thesis
    using ecommerce_requires_both [of doc_text_only "[]"]
      ecommerce_requires_both [of doc_struct_only "[]"]
      ecommerce_requires_both [of doc_shop "[]"] a b c
    by blast
qed

text \<open>
  C4. On a list of two items that each hold a sublist of two items, the list check fires
  although no list has more than two direct items: the check counts every item below a
  list, six here. The list extraction, which counts direct items, then finds no list to
  extract on the page it was chosen for.
\<close>

theorem list_check_counts_nested_items:
  "detect_page_type doc_nested_list [] = ''list''
   \<and> map (\<lambda>l. length (find_all_direct (has_name [''li'']) l))
        (find_all (has_name [''ul'', ''ol'']) doc_nested_list) = [2, 2, 2]
   \<and> map (\<lambda>l. length (find_all (has_name [''li'']) l))
        (find_all (has_name [''ul'', ''ol'']) doc_nested_list) = [6, 2, 2]
   \<and> auto_detect_and_scrape doc_nested_list [] = ([Auto_detecting, Detected ''list''], [])"
  by code_simp

section \<open>Properties of table extraction\<close>

lemma setitem_not_Nil: "setitem k v d \<noteq> []"
  by (cases d) (auto simp: setitem_def)

lemma cells_loop_not_Nil:
  "cells_loop headers (enumerate k cells) d \<noteq> [] \<longleftrightarrow>
     d \<noteq> [] \<or> (cells \<noteq> [] \<and> k < length headers)"
proof (induction cells arbitrary: k d)
  case Nil
  then show ?case by simp
next
  case (Cons c cells)
  show ?case
    by (auto simp: Cons.IH setitem_not_Nil)
qed

lemma rows_loop_length:
  "length (rows_loop i headers rows) =
     length (filter (\<lambda>row. find_all (has_name cell_names) row \<noteq> [] \<and> headers \<noteq> []) rows)"
  by (induction rows) (auto simp: Let_def cells_loop_not_Nil)

lemma length_table_headers:
  "length (table_headers r) = length (find_all (has_name cell_names) r)"
  by (simp add: table_headers_def Let_def)

lemma length_concat_sum:
  "length (concat xss) = sum_list (map length xss)"
  by (induction xss) simp_all

text \<open>C3, as the claim states it, fails on a row of empty cells.\<close>

theorem blank_row_yields_record:
  "scrape_tables doc_blank_row =
     [[(''Name'', StrV ''''), (''Score'', StrV ''''), (''_table_index'', IntV 0)],
      [(''Name'', StrV ''Bob''), (''Score'', StrV ''7''), (''_table_index'', IntV 0)]]
   \<and> map (\<lambda>row. map get_text_strip (take 2 (find_all (has_name cell_names) row)))
        (tl (find_all (has_name [''tr'']) doc_blank_row))
      = [['''', ''''], [''Bob'', ''7'']]"
  by code_simp

text \<open>
  C3, amended. A table with fewer than two rows gives no record. Otherwise, with N the
  number of cells of the first row, every later row that has at least one cell gives
  exactly one record when N is positive, whatever the text of its cells, and no row gives
  one when N is zero; the records of the page are those of its tables.
\<close>

theorem scrape_tables_count:
  "length (scrape_table table_idx table) =
     (let rows = find_all (has_name [''tr'']) table;
          N = length (find_all (has_name cell_names) (hd rows))
      in if length rows < 2 then 0
         else length (filter (\<lambda>row. find_all (has_name cell_names) row \<noteq> [] \<and> 0 < N)
                        (tl rows)))
   \<and> length (scrape_tables soup) =
       sum_list (map (\<lambda>(i, t). length (scrape_table i t))
                   (enumerate 0 (find_all (has_name [''table'']) soup)))"
proof -
  have one: "length (scrape_table table_idx table) =
     (let rows = find_all (has_name [''tr'']) table;
          N = length (find_all (has_name cell_names) (hd rows))
      in if length rows < 2 then 0
         else length (filter (\<lambda>row. find_all (has_name cell_names) row \<noteq> [] \<and> 0 < N)
                        (tl rows)))"
  proof (cases "find_all (has_name [''tr'']) table")
    case Nil
    then show ?thesis by (simp add: scrape_table_def)
  next
    case (Cons r rs)
    have "table_headers r \<noteq> [] \<longleftrightarrow> 0 < length (find_all (has_name cell_names) r)"
      using length_table_headers [of r] by (metis length_greater_0_conv)
    with Cons show ?thesis
      by (simp add: scrape_table_def Let_def rows_loop_length)
  qed
  have all: "length (scrape_tables soup) =
       sum_list (map (\<lambda>(i, t). length (scrape_table i t))
                   (enumerate 0 (find_all (has_name [''table'']) soup)))"
    by (simp add: scrape_tables_def length_concat_sum comp_def case_prod_unfold)
  from one all show ?thesis by simp
qed

theorem scrape_tables_count_witness:
  "length (scrape_table 0 (hd (find_all (has_name [''table'']) doc_blank_row))) = 2
   \<and> length (scrape_tables doc_blank_row) = 2"
proof -
  have "(let rows = find_all (has_name [''tr'']) (hd (find_all (has_name [''table'']) doc_blank_row));
          N = length (find_all (has_name cell_names) (hd rows))
      in if length rows < 2 then 0
         else length (filter (\<lambda>row. find_all (has_name cell_names) row \<noteq> [] \<and> 0 < N)
                        (tl rows))) = (2::nat)"
    by code_simp
  moreover have "enumerate 0 (find_all (has_name [''table'']) doc_blank_row)
      = [(0, hd (find_all (has_name [''table'']) doc_blank_row))]"
    by code_simp
  ultimately show ?thesis
    using scrape_tables_count [of 0 "hd (find_all (has_name [''table'']) doc_blank_row)" doc_blank_row]
    by simp
qed

section \<open>Properties of list extraction\<close>

lemma map_of_list_item_record:
  "map_of (list_item_record i j item) ''_list_index'' = Some (IntV (int i))
   \<and> map_of (list_item_record i j item) ''_item_index'' = Some (IntV (int j))
   \<and> map_of (list_item_record i j item) ''text'' = Some (StrV (get_text_strip item))"
  by (simp add: list_item_record_def Let_def setitem_def update_conv' split: option.splits)

lemma in_scrape_list:
  "r \<in> set (scrape_list i lst) \<Longrightarrow>
     3 \<le> length (find_all_direct (has_name [''li'']) lst)
     \<and> (\<exists>j < length (find_all_direct (has_name [''li'']) lst).
          r = list_item_record i j (find_all_direct (has_name [''li'']) lst ! j))"
  by (auto simp: scrape_list_def Let_def in_set_enumerate_eq split: if_splits)

text \<open>C5, as the claim states it, fails on a list of exactly three items.\<close>

theorem three_item_list_is_extracted:
  "map (\<lambda>l. length (find_all_direct (has_name [''li'']) l))
     (find_all (has_name [''ul'', ''ol'']) doc_three_items) = [3, 2]
   \<and> scrape_lists doc_three_items =
     [[(''text'', StrV ''one''), (''_list_index'', IntV 0), (''_item_index'', IntV 0)],
      [(''text'', StrV ''twoxy''), (''_list_index'', IntV 0), (''_item_index'', IntV 1),
       (''link'', StrV ''/two'')],
      [(''text'', StrV ''three''), (''_list_index'', IntV 0), (''_item_index'', IntV 2)]]"
  by code_simp

lemma in_scrape_list_conv:
  "3 \<le> length (find_all_direct (has_name [''li'']) lst)
     \<Longrightarrow> j < length (find_all_direct (has_name [''li'']) lst)
     \<Longrightarrow> list_item_record i j (find_all_direct (has_name [''li'']) lst ! j)
           \<in> set (scrape_list i lst)"
proof -
  assume n: "3 \<le> length (find_all_direct (has_name [''li'']) lst)"
    and j: "j < length (find_all_direct (has_name [''li'']) lst)"
  from j have "(j, find_all_direct (has_name [''li'']) lst ! j)
      \<in> set (enumerate 0 (find_all_direct (has_name [''li'']) lst))"
    by (simp add: in_set_enumerate_eq)
  then have "list_item_record i j (find_all_direct (has_name [''li'']) lst ! j)
      \<in> set (map (\<lambda>(item_idx, item). list_item_record i item_idx item)
                (enumerate 0 (find_all_direct (has_name [''li'']) lst)))"
    by force
  with n show ?thesis
    by (simp add: scrape_list_def Let_def)
qed

lemma length_scrape_list:
  "length (scrape_list i lst) =
     (if length (find_all_direct (has_name [''li'']) lst) < 3 then 0
      else length (find_all_direct (has_name [''li'']) lst))"
  by (simp add: scrape_list_def Let_def)

lemma sum_list_enumerate_snd:
  "sum_list (map (\<lambda>(i, x). f x) (enumerate n xs)) = sum_list (map f xs)"
  by (induction xs arbitrary: n) simp_all

text \<open>
  C5, amended. The records of the list extraction are exactly the records of the direct
  items of the page's lists that have at least three direct items, each at the index of
  its list and its own index among the direct items: a list with two or fewer direct items
  gives no record, a list with exactly three gives three, and an item of a sublist counts
  for the sublist only. The number of records is the sum of the numbers of direct items
  of the lists with at least three.
\<close>

theorem scrape_lists_direct_items:
  "(r \<in> set (scrape_lists soup) \<longleftrightarrow>
      (\<exists>i j. i < length (find_all (has_name [''ul'', ''ol'']) soup)
         \<and> j < length (find_all_direct (has_name [''li''])
                        (find_all (has_name [''ul'', ''ol'']) soup ! i))
         \<and> 3 \<le> length (find_all_direct (has_name [''li''])
                        (find_all (has_name [''ul'', ''ol'']) soup ! i))
         \<and> r = list_item_record i j
                 (find_all_direct (has_name [''li''])
                    (find_all (has_name [''ul'', ''ol'']) soup ! i) ! j)))
   \<and> length (scrape_lists soup) =
       sum_list (map (\<lambda>lst. if length (find_all_direct (has_name [''li'']) lst) < 3 then 0
                            else length (find_all_direct (has_name [''li'']) lst))
                   (find_all (has_name [''ul'', ''ol'']) soup))
   \<and> map_of (list_item_record list_idx item_idx item) ''_list_index''
       = Some (IntV (int list_idx))
   \<and> map_of (list_item_record list_idx item_idx item) ''_item_index''
       = Some (IntV (int item_idx))
   \<and> map_of (list_item_record list_idx item_idx item) ''text''
       = Some (StrV (get_text_strip item))"
proof -
  let ?L = "find_all (has_name [''ul'', ''ol'']) soup"
  let ?D = "\<lambda>lst. find_all_direct (has_name [''li'']) lst"
  have only_if: "\<exists>i j. i < length ?L \<and> j < length (?D (?L ! i)) \<and> 3 \<le> length (?D (?L ! i))
      \<and> r = list_item_record i j (?D (?L ! i) ! j)"
    if "r \<in> set (scrape_lists soup)"
  proof -
    from that obtain i lst where il: "(i, lst) \<in> set (enumerate 0 ?L)"
      and r: "r \<in> set (scrape_list i lst)"
      by (auto simp: scrape_lists_def)
    from il have i: "i < length ?L" and lst: "lst = ?L ! i"
      by (auto simp: in_set_enumerate_eq)
    from in_scrape_list [OF r] obtain j where
      "3 \<le> length (?D lst)" "j < length (?D lst)" "r = list_item_record i j (?D lst ! j)"
      by blast
    with i lst show ?thesis by blast
  qed
  have "if": "r \<in> set (scrape_lists soup)"
    if "\<exists>i j. i < length ?L \<and> j < length (?D (?L ! i)) \<and> 3 \<le> length (?D (?L ! i))
      \<and> r = list_item_record i j (?D (?L ! i) ! j)"
  proof -
    from that obtain i j where i: "i < length ?L" and j: "j < length (?D (?L ! i))"
      and n: "3 \<le> length (?D (?L ! i))" and r: "r = list_item_record i j (?D (?L ! i) ! j)"
      by blast
    from i have il: "(i, ?L ! i) \<in> set (enumerate 0 ?L)"
      by (simp add: in_set_enumerate_eq)
    from in_scrape_list_conv [OF n j] r have "r \<in> set (scrape_list i (?L ! i))"
      by simp
    with il show ?thesis
      unfolding scrape_lists_def by force
  qed
  have count: "length (scrape_lists soup) =
       sum_list (map (\<lambda>lst. if length (?D lst) < 3 then 0 else length (?D lst)) ?L)"
  proof -
    have "length (scrape_lists soup) =
        sum_list (map (\<lambda>(i, lst). if length (?D lst) < 3 then 0 else length (?D lst))
                    (enumerate 0 ?L))"
      by (simp add: scrape_lists_def length_concat_sum comp_def case_prod_unfold
          length_scrape_list)
    then show ?thesis
      by (simp only: sum_list_enumerate_snd)
  qed
  from only_if "if" count map_of_list_item_record [of list_idx item_idx item]
  show ?thesis by blast
qed

theorem scrape_lists_direct_items_witness:
  "length (find_all_direct (has_name [''li''])
             (find_all (has_name [''ul'', ''ol'']) doc_three_items ! 0)) = 3
   \<and> [(''text'', StrV ''three''), (''_list_index'', IntV 0), (''_item_index'', IntV 2)]
        \<in> set (scrape_lists doc_three_items)
   \<and> length (scrape_lists doc_three_items) = 3"
proof -
  let ?L = "find_all (has_name [''ul'', ''ol'']) doc_three_items"
  let ?D = "\<lambda>lst. find_all_direct (has_name [''li'']) lst"
  let ?r = "[(''text'', StrV ''three''), (''_list_index'', IntV 0), (''_item_index'', IntV 2)]"
  have i: "0 < length ?L" by code_simp
  have n: "length (?D (?L ! 0)) = 3" by code_simp
  have r: "?r = list_item_record 0 2 (?D (?L ! 0) ! 2)" by code_simp
  have s: "sum_list (map (\<lambda>lst. if length (?D lst) < 3 then 0 else length (?D lst)) ?L) = 3"
    by code_simp
  from i n r have ex: "\<exists>i j. i < length ?L \<and> j < length (?D (?L ! i)) \<and> 3 \<le> length (?D (?L ! i))
      \<and> ?r = list_item_record i j (?D (?L ! i) ! j)"
    by (intro exI [of _ 0] exI [of _ 2]) simp
  from scrape_lists_direct_items [of ?r doc_three_items] ex
  have mem: "?r \<in> set (scrape_lists doc_three_items)"
    by blast
  from scrape_lists_direct_items [of ?r doc_three_items] s
  have len: "length (scrape_lists doc_three_items) = 3"
    by simp
  from n mem len show ?thesis by blast
qed

section \<open>Properties of card extraction\<close>

lemma best_loop_spec:
  "(best_loop sels soup acc = acc
      \<and> (\<forall>s\<in>set sels. length (find_all (is_div_with s) soup) \<le> length acc))
   \<or> (\<exists>i<length sels.
        best_loop sels soup acc = find_all (is_div_with (sels ! i)) soup
        \<and> length acc < length (find_all (is_div_with (sels ! i)) soup)
        \<and> (\<forall>j<length sels. length (find_all (is_div_with (sels ! j)) soup)
                              \<le> length (find_all (is_div_with (sels ! i)) soup))
        \<and> (\<forall>j<i. length (find_all (is_div_with (sels ! j)) soup)
                    < length (find_all (is_div_with (sels ! i)) soup)))"
proof (induction sels arbitrary: acc)
  case Nil
  then show ?case by simp
next
  case (Cons s sels)
  let ?F = "\<lambda>s. find_all (is_div_with s) soup"
  let ?acc' = "if length (?F s) > length acc then ?F s else acc"
  have step: "best_loop (s # sels) soup acc = best_loop sels soup ?acc'"
    by (simp add: Let_def)
  from Cons.IH [of ?acc'] show ?case
  proof
    assume A: "best_loop sels soup ?acc' = ?acc'
      \<and> (\<forall>t\<in>set sels. length (?F t) \<le> length ?acc')"
    show ?thesis
    proof (cases "length (?F s) > length acc")
      case False
      with A step show ?thesis by auto
    next
      case True
      with A step have "best_loop (s # sels) soup acc = ?F ((s # sels) ! 0)"
        and "length acc < length (?F ((s # sels) ! 0))"
        and "\<forall>j<length (s # sels). length (?F ((s # sels) ! j)) \<le> length (?F ((s # sels) ! 0))"
        by (auto simp: nth_Cons split: nat.splits)
      then show ?thesis by blast
    qed
  next
    assume "\<exists>i<length sels.
        best_loop sels soup ?acc' = ?F (sels ! i)
        \<and> length ?acc' < length (?F (sels ! i))
        \<and> (\<forall>j<length sels. length (?F (sels ! j)) \<le> length (?F (sels ! i)))
        \<and> (\<forall>j<i. length (?F (sels ! j)) < length (?F (sels ! i)))"
    then obtain i where i: "i < length sels"
      and r: "best_loop sels soup ?acc' = ?F (sels ! i)"
      and lt: "length ?acc' < length (?F (sels ! i))"
      and mx: "\<forall>j<length sels. length (?F (sels ! j)) \<le> length (?F (sels ! i))"
      and fst: "\<forall>j<i. length (?F (sels ! j)) < length (?F (sels ! i))"
      by blast
    from lt have s_lt: "length (?F s) < length (?F (sels ! i))"
      and acc_lt: "length acc < length (?F (sels ! i))"
      by (auto split: if_splits)
    have 1: "Suc i < length (s # sels)" using i by simp
    have 2: "best_loop (s # sels) soup acc = ?F ((s # sels) ! Suc i)"
      using step r by simp
    have 3: "length acc < length (?F ((s # sels) ! Suc i))" using acc_lt by simp
    have 4: "\<forall>j<length (s # sels). length (?F ((s # sels) ! j)) \<le> length (?F ((s # sels) ! Suc i))"
      using mx s_lt by (auto simp: nth_Cons split: nat.splits)
    have 5: "\<forall>j<Suc i. length (?F ((s # sels) ! j)) < length (?F ((s # sels) ! Suc i))"
      using fst s_lt by (auto simp: nth_Cons split: nat.splits)
    from 1 2 3 4 5 show ?thesis by blast
  qed
qed

lemma find_all_is_div:
  "c \<in> set (find_all (is_div_with s) soup) \<Longrightarrow> tag_name c = Some ''div''"
  by (auto simp: find_all_def is_div_with_def has_name_def split: option.splits)

text \<open>
  C9. The candidates of the card extraction are the divs matching one single pattern of
  card, tile, grid-item, box: a pattern whose set is as long as any other's and strictly
  longer than the set of every pattern before it, so a tie goes to the earlier pattern.
  Every candidate is a div, and each gives one record, numbered in order.
\<close>

theorem find_cards_first_longest:
  "(\<exists>i<length card_selectors.
      find_cards soup = find_all (is_div_with (card_selectors ! i)) soup
      \<and> (\<forall>j<length card_selectors.
            length (find_all (is_div_with (card_selectors ! j)) soup)
              \<le> length (find_all (is_div_with (card_selectors ! i)) soup))
      \<and> (\<forall>j<i. length (find_all (is_div_with (card_selectors ! j)) soup)
                  < length (find_all (is_div_with (card_selectors ! i)) soup)))
   \<and> (\<forall>c\<in>set (find_cards soup). tag_name c = Some ''div'')
   \<and> card_selectors = [[[''card'']], [[''tile'']], [[''grid-item'']], [[''box'']]]
   \<and> scrape_cards soup =
       map (\<lambda>(card_idx, c). card_record card_idx c) (enumerate 0 (find_cards soup))"
proof -
  let ?F = "\<lambda>s. find_all (is_div_with s) soup"
  have ex: "\<exists>i<length card_selectors.
      find_cards soup = ?F (card_selectors ! i)
      \<and> (\<forall>j<length card_selectors. length (?F (card_selectors ! j)) \<le> length (?F (card_selectors ! i)))
      \<and> (\<forall>j<i. length (?F (card_selectors ! j)) < length (?F (card_selectors ! i)))"
    using best_loop_spec [of card_selectors soup "[]"]
  proof
    assume A: "best_loop card_selectors soup [] = []
      \<and> (\<forall>s\<in>set card_selectors. length (?F s) \<le> length ([]::node list))"
    then have all: "\<forall>j<length card_selectors. ?F (card_selectors ! j) = []"
      by simp
    have "0 < length card_selectors" by (simp add: card_selectors_def)
    with all A show ?thesis
      unfolding find_cards_def by (metis le_refl not_less_zero)
  next
    assume "\<exists>i<length card_selectors.
        best_loop card_selectors soup [] = ?F (card_selectors ! i)
        \<and> length ([]::node list) < length (?F (card_selectors ! i))
        \<and> (\<forall>j<length card_selectors. length (?F (card_selectors ! j)) \<le> length (?F (card_selectors ! i)))
        \<and> (\<forall>j<i. length (?F (card_selectors ! j)) < length (?F (card_selectors ! i)))"
    then show ?thesis unfolding find_cards_def by blast
  qed
  then have divs: "\<forall>c\<in>set (find_cards soup). tag_name c = Some ''div''"
    using find_all_is_div by metis
  have pats: "card_selectors = [[[''card'']], [[''tile'']], [[''grid-item'']], [[''box'']]]"
    by (simp add: card_selectors_def re_card_def re_tile_def re_grid_item_def re_box_def)
  from ex divs pats show ?thesis by (simp add: scrape_cards_def)
qed

theorem find_cards_first_longest_witness:
  "map (\<lambda>s. length (find_all (is_div_with s) doc_tie)) card_selectors = [2, 2, 0, 1]
   \<and> find_cards doc_tie = find_all (is_div_with re_card) doc_tie
   \<and> find_cards doc_tie = [Elem ''div'' [''card''] [] [Text ''c1''],
                            Elem ''div'' [''card''] [] [Text ''c2'']]"
proof -
  have lens: "map (\<lambda>s. length (find_all (is_div_with s) doc_tie)) card_selectors = [2, 2, 0, 1]"
    by code_simp
  have sels: "card_selectors = [re_card, re_tile, re_grid_item, re_box]"
    by (simp add: card_selectors_def)
  have l0: "length (find_all (is_div_with re_card) doc_tie) = 2"
    and l1: "length (find_all (is_div_with re_tile) doc_tie) = 2"
    and l2: "length (find_all (is_div_with re_grid_item) doc_tie) = 0"
    and l3: "length (find_all (is_div_with re_box) doc_tie) = 1"
    by code_simp+
  from find_cards_first_longest [of doc_tie] obtain i where
    i: "i < length card_selectors"
    and r: "find_cards doc_tie = find_all (is_div_with (card_selectors ! i)) doc_tie"
    and fst: "\<forall>j<i. length (find_all (is_div_with (card_selectors ! j)) doc_tie)
                  < length (find_all (is_div_with (card_selectors ! i)) doc_tie)"
    by blast
  from i have "i = 0 \<or> i = 1 \<or> i = 2 \<or> i = 3"
    by (auto simp: sels)
  then have "i = 0"
  proof (elim disjE)
    assume "i = 1"
    with fst have "length (find_all (is_div_with (card_selectors ! 0)) doc_tie)
        < length (find_all (is_div_with (card_selectors ! 1)) doc_tie)" by simp
    with l0 l1 show ?thesis by (simp add: sels)
  next
    assume "i = 2"
    with fst have "length (find_all (is_div_with (card_selectors ! 0)) doc_tie)
        < length (find_all (is_div_with (card_selectors ! 2)) doc_tie)" by simp
    with l0 l2 show ?thesis by (simp add: sels)
  next
    assume "i = 3"
    with fst have "length (find_all (is_div_with (card_selectors ! 0)) doc_tie)
        < length (find_all (is_div_with (card_selectors ! 3)) doc_tie)" by simp
    with l0 l3 show ?thesis by (simp add: sels)
  qed simp
  with r have eq: "find_cards doc_tie = find_all (is_div_with re_card) doc_tie"
    by (simp add: sels)
  have "find_all (is_div_with re_card) doc_tie =
      [Elem ''div'' [''card''] [] [Text ''c1''], Elem ''div'' [''card''] [] [Text ''c2'']]"
    by code_simp
  with eq lens show ?thesis by simp
qed

section \<open>Properties of product extraction\<close>

lemma products_loop_eq:
  "products_loop xs =
     map (\<lambda>(i, p). product_record i p)
       (filter (\<lambda>(i, p). keep_product (product_record i p)) xs)"
  by (induction xs) (auto simp: Let_def)

lemma map_of_setitem: "map_of (setitem k v d) = (map_of d)(k \<mapsto> v)"
  by (simp add: setitem_def update_conv')

lemma map_of_set_text:
  "k \<noteq> key \<Longrightarrow> map_of (set_text key found d) k = map_of d k"
  by (simp add: set_text_def map_of_setitem split: option.splits)

lemma map_of_set_link:
  "k \<noteq> ''link'' \<Longrightarrow> map_of (set_link n d) k = map_of d k"
  by (simp add: set_link_def map_of_setitem split: option.splits)

lemma map_of_set_image:
  "k \<noteq> ''image'' \<Longrightarrow> map_of (set_image n d) k = map_of d k"
  by (simp add: set_image_def map_of_setitem split: option.splits)

lemma product_record_index:
  "map_of (product_record i p) ''_product_index'' = Some (IntV (int i))"
  by (simp add: product_record_def Let_def map_of_set_text map_of_set_link map_of_set_image)

lemma sorted_fst_filter_enumerate:
  "sorted_wrt (<) (map fst (filter P (enumerate n xs)))"
proof -
  have "sorted_wrt (<) (map fst (enumerate n xs))"
    by (simp add: map_fst_enumerate)
  then have "sorted_wrt (\<lambda>a b. fst a < fst b) (enumerate n xs)"
    by (simp only: sorted_wrt_map)
  then have "sorted_wrt (\<lambda>a b. fst a < fst b) (filter P (enumerate n xs))"
    by (rule sorted_wrt_filter)
  then show ?thesis by (simp only: sorted_wrt_map)
qed

text \<open>
  C10. The product records are those of the kept candidates, each built with the
  candidate's position among all elements of class product or item as its
  \<open>_product_index\<close>; the indices of the output are therefore strictly increasing
  positions in that list, with gaps where a candidate without name and price was dropped.
\<close>

theorem product_index_positions:
  "scrape_products soup =
     map (\<lambda>(i, p). product_record i p)
       (filter (\<lambda>(i, p). keep_product (product_record i p))
          (enumerate 0 (find_all (has_class re_product_item) soup)))
   \<and> map (\<lambda>r. map_of r ''_product_index'') (scrape_products soup) =
       map (\<lambda>i. Some (IntV (int i)))
         (map fst (filter (\<lambda>(i, p). keep_product (product_record i p))
            (enumerate 0 (find_all (has_class re_product_item) soup))))
   \<and> sorted_wrt (<)
       (map fst (filter (\<lambda>(i, p). keep_product (product_record i p))
          (enumerate 0 (find_all (has_class re_product_item) soup))))
   \<and> set (map fst (filter (\<lambda>(i, p). keep_product (product_record i p))
          (enumerate 0 (find_all (has_class re_product_item) soup))))
       \<subseteq> {..< length (find_all (has_class re_product_item) soup)}"
proof -
  let ?kept = "filter (\<lambda>(i, p). keep_product (product_record i p))
          (enumerate 0 (find_all (has_class re_product_item) soup))"
  have a: "scrape_products soup = map (\<lambda>(i, p). product_record i p) ?kept"
    by (simp add: scrape_products_def products_loop_eq)
  have b: "map (\<lambda>r. map_of r ''_product_index'') (scrape_products soup) =
       map (\<lambda>i. Some (IntV (int i))) (map fst ?kept)"
    unfolding a by (simp add: case_prod_unfold product_record_index comp_def)
  have c: "sorted_wrt (<) (map fst ?kept)"
    by (rule sorted_fst_filter_enumerate)
  have d: "set (map fst ?kept) \<subseteq> {..< length (find_all (has_class re_product_item) soup)}"
    by (auto simp: in_set_enumerate_eq)
  from a b c d show ?thesis by blast
qed

theorem product_index_positions_witness:
  "length (find_all (has_class re_product_item) doc_products) = 4
   \<and> map (\<lambda>r. map_of r ''_product_index'') (scrape_products doc_products)
       = [Some (IntV 1), Some (IntV 3)]
   \<and> scrape_products doc_products =
       [[(''_product_index'', IntV 1), (''name'', StrV ''Lamp'')],
        [(''_product_index'', IntV 3), (''price'', StrV ''9.99'')]]"
proof -
  have n: "length (find_all (has_class re_product_item) doc_products) = 4"
    by code_simp
  have k: "map fst (filter (\<lambda>(i, p). keep_product (product_record i p))
          (enumerate 0 (find_all (has_class re_product_item) doc_products))) = [1, 3]"
    by code_simp
  have s: "scrape_products doc_products =
       [[(''_product_index'', IntV 1), (''name'', StrV ''Lamp'')],
        [(''_product_index'', IntV 3), (''price'', StrV ''9.99'')]]"
    by code_simp
  from product_index_positions [of doc_products]
  have "map (\<lambda>r. map_of r ''_product_index'') (scrape_products doc_products) =
       map (\<lambda>i. Some (IntV (int i)))
         (map fst (filter (\<lambda>(i, p). keep_product (product_record i p))
            (enumerate 0 (find_all (has_class re_product_item) doc_products))))"
    by blast
  also have "\<dots> = [Some (IntV 1), Some (IntV 3)]"
    unfolding k by simp
  finally show ?thesis using n s by blast
qed

section \<open>Properties of the dispatch\<close>




section \<open>Properties of the extraction with given selectors\<close>

lemma fields_loop_raises:
  "(f, x) \<in> set s \<Longrightarrow> f \<noteq> ''container'' \<Longrightarrow> sel x c = Inl e
     \<Longrightarrow> \<exists>e'. fields_loop sel c s item = Inl e'"
proof (induction s arbitrary: item)
  case Nil
  then show ?case by simp
next
  case (Cons p s)
  obtain f' x' where p: "p = (f', x')" by (cases p)
  show ?case
  proof (cases "(f, x) = p")
    case True
    with Cons.prems p show ?thesis by (simp add: select_one_def)
  next
    case False
    with Cons.prems have "(f, x) \<in> set s" by simp
    from Cons.IH [OF this Cons.prems(2,3)] have "\<And>item. \<exists>e'. fields_loop sel c s item = Inl e'" .
    then show ?thesis
      unfolding p by (auto split: sum.splits option.splits)
  qed
qed

text \<open>
  C7, as the claim states it, fails: a malformed field selector passes unnoticed when no
  container matches, and where it is evaluated \<open>scrape_url\<close> prints the engine's error
  (with the selector, not the field) and returns its list as it was.
\<close>

theorem malformed_selector_not_reported:
  "type_select ''h2['' doc_body = Inl (SelectorSyntaxError ''h2['')
   \<and> selectors cfg_bad_unused = Some [(''container'', ''aside''), (''heading'', ''h2['')]
   \<and> scrape_with_selectors type_select doc_body [(''container'', ''aside''), (''heading'', ''h2['')]
       = ([Using_custom_selectors, Extracted_with_selectors 0], Inr [])
   \<and> scrape_url type_select [] doc_body [] (Some cfg_bad_unused) []
       = ([Using_custom_selectors, Extracted_with_selectors 0, Scraped 0], [])
   \<and> selectors cfg_bad_field = Some [(''container'', ''section''), (''heading'', ''h2['')]
   \<and> scrape_url type_select [] doc_body [] (Some cfg_bad_field) []
       = ([Using_custom_selectors, Error_scraping (SelectorSyntaxError ''h2['')], [])"
  by code_simp

text \<open>
  C7, amended. When the engine refuses the container selector, or refuses a field
  selector on the first container, the extraction with given selectors raises an error of
  the engine and returns no record; \<open>scrape_url\<close> catches the error, prints it and returns
  its list unchanged.
\<close>

theorem malformed_selector_raises_and_is_caught:
  "(sel (case map_of s ''container'' of None \<Rightarrow> ''body'' | Some c \<Rightarrow> c) soup = Inl e
      \<longrightarrow> snd (scrape_with_selectors sel soup s) = Inl e)
   \<and> (sel (case map_of s ''container'' of None \<Rightarrow> ''body'' | Some c \<Rightarrow> c) soup = Inr (c1 # cs)
        \<and> (f, x) \<in> set s \<and> f \<noteq> ''container'' \<and> sel x c1 = Inl e
      \<longrightarrow> (\<exists>e'. snd (scrape_with_selectors sel soup s) = Inl e'))
   \<and> (selectors c = Some s \<and> snd (scrape_with_selectors sel soup s) = Inl e
      \<longrightarrow> scrape_url sel self_data soup url (Some c) pages
            = ([Using_custom_selectors, Error_scraping e], self_data))"
proof -
  have a: "sel (case map_of s ''container'' of None \<Rightarrow> ''body'' | Some c \<Rightarrow> c) soup = Inl e
      \<Longrightarrow> snd (scrape_with_selectors sel soup s) = Inl e"
    by (simp add: scrape_with_selectors_def)
  have b: "\<exists>e'. snd (scrape_with_selectors sel soup s) = Inl e'"
    if h: "sel (case map_of s ''container'' of None \<Rightarrow> ''body'' | Some c \<Rightarrow> c) soup = Inr (c1 # cs)"
      "(f, x) \<in> set s" "f \<noteq> ''container''" "sel x c1 = Inl e"
  proof -
    from fields_loop_raises [of f x s sel c1 e "[]"] h(2,3,4)
    obtain e' where "fields_loop sel c1 s [] = Inl e'"
      by blast
    then have "containers_loop sel s (c1 # cs) = Inl e'" by simp
    with h(1) show ?thesis by (simp add: scrape_with_selectors_def)
  qed
  have c: "scrape_url sel self_data soup url (Some c) pages
            = ([Using_custom_selectors, Error_scraping e], self_data)"
    if h: "selectors c = Some s" "snd (scrape_with_selectors sel soup s) = Inl e"
  proof -
    from h(2) have "scrape_with_selectors sel soup s = ([Using_custom_selectors], Inl e)"
      by (auto simp: scrape_with_selectors_def Let_def split: sum.splits)
    with h(1) show ?thesis by (simp add: scrape_url_def extract_page_def)
  qed
  from a b c show ?thesis by blast
qed

theorem malformed_selector_raises_and_is_caught_witness:
  "snd (scrape_with_selectors type_select doc_body [(''container'', ''a b'')])
      = Inl (SelectorSyntaxError ''a b'')
   \<and> (\<exists>e'. snd (scrape_with_selectors type_select doc_body
               [(''container'', ''section''), (''heading'', ''h2['')]) = Inl e')
   \<and> scrape_url type_select [[(''old'', StrV ''row'')]] doc_body [] (Some cfg_bad_field) []
       = ([Using_custom_selectors, Error_scraping (SelectorSyntaxError ''h2['')],
          [[(''old'', StrV ''row'')]])"
proof -
  let ?s1 = "[(''container'', ''a b'')]"
  let ?s2 = "[(''container'', ''section''), (''heading'', ''h2['')]"
  let ?c1 = "Elem ''section'' [] [] [Elem ''h2'' [] [] [Text '' First '']]"
  let ?cs = "[Elem ''section'' [] [] [Elem ''p'' [] [] [Text ''no heading'']],
              Elem ''section'' [] [] [Elem ''h2'' [] [] [Text ''Third'']]]"
  have h1: "type_select (case map_of ?s1 ''container'' of None \<Rightarrow> ''body'' | Some c \<Rightarrow> c) doc_body
      = Inl (SelectorSyntaxError ''a b'')"
    by code_simp
  have h2: "type_select (case map_of ?s2 ''container'' of None \<Rightarrow> ''body'' | Some c \<Rightarrow> c) doc_body
      = Inr (?c1 # ?cs)"
    by code_simp
  have h3: "(''heading'', ''h2['') \<in> set ?s2" "''heading'' \<noteq> ''container''"
    "type_select ''h2['' ?c1 = Inl (SelectorSyntaxError ''h2['')"
    by code_simp+
  have h4: "selectors cfg_bad_field = Some ?s2"
    by (simp add: cfg_bad_field_def)
  have h5: "snd (scrape_with_selectors type_select doc_body ?s2) = Inl (SelectorSyntaxError ''h2['')"
    by code_simp
  have r1: "snd (scrape_with_selectors type_select doc_body ?s1) = Inl (SelectorSyntaxError ''a b'')"
    using malformed_selector_raises_and_is_caught
      [of type_select ?s1 doc_body "SelectorSyntaxError ''a b''"] h1
    by blast
  have r2: "\<exists>e'. snd (scrape_with_selectors type_select doc_body ?s2) = Inl e'"
    using malformed_selector_raises_and_is_caught
      [of type_select ?s2 doc_body "SelectorSyntaxError ''h2[''" ?c1 ?cs "''heading''" "''h2[''"]
      h2 h3
    by blast
  have r3: "scrape_url type_select [[(''old'', StrV ''row'')]] doc_body [] (Some cfg_bad_field) []
       = ([Using_custom_selectors, Error_scraping (SelectorSyntaxError ''h2['')],
          [[(''old'', StrV ''row'')]])"
    using malformed_selector_raises_and_is_caught
      [of type_select ?s2 doc_body "SelectorSyntaxError ''h2[''" _ _ _ _ cfg_bad_field
          "[[(''old'', StrV ''row'')]]" "[]" "[]"] h4 h5
    by blast
  from r1 r2 r3 show ?thesis by blast
qed

section \<open>Properties of the records\<close>

lemma all_entries_iff: "all_entries Q d \<longleftrightarrow> (\<forall>(k, v)\<in>set d. Q k v)"
  by (simp add: all_entries_def list_all_iff)

lemma set_setitem_subset: "set (setitem k v d) \<subseteq> insert (k, v) (set d)"
  unfolding setitem_def by (induction d) auto

lemma all_entries_setitem:
  "all_entries Q d \<Longrightarrow> Q k v \<Longrightarrow> all_entries Q (setitem k v d)"
  using set_setitem_subset [of k v d]
  by (auto simp: all_entries_iff)

lemma all_entries_set_text:
  "all_entries Q d \<Longrightarrow> (\<And>s. Q key (StrV s)) \<Longrightarrow> all_entries Q (set_text key found d)"
  by (simp add: set_text_def all_entries_setitem split: option.splits)

lemma all_entries_set_link:
  "all_entries Q d \<Longrightarrow> (\<And>s. Q ''link'' (StrV s)) \<Longrightarrow> all_entries Q (set_link n d)"
  by (simp add: set_link_def all_entries_setitem split: option.splits)

lemma all_entries_set_image:
  "all_entries Q d \<Longrightarrow> (\<And>v. Q ''image'' v) \<Longrightarrow> all_entries Q (set_image n d)"
  by (simp add: set_image_def all_entries_setitem split: option.splits)

lemma field_ok_str: "k \<noteq> [] \<Longrightarrow> field_ok k (StrV s)"
  by (simp add: field_ok_def)

lemma field_ok_image: "field_ok ''image'' v"
  by (simp add: field_ok_def)

lemma field_ok_index: "k \<in> set index_fields \<Longrightarrow> field_ok k (IntV i)"
  by (auto simp: field_ok_def index_fields_def)

lemma list_item_record_ok: "all_entries field_ok (list_item_record i j item)"
proof -
  have base: "all_entries field_ok
      [(''text'', StrV (get_text_strip item)), (''_list_index'', IntV (int i)),
       (''_item_index'', IntV (int j))]"
    by (simp add: all_entries_def field_ok_def index_fields_def)
  show ?thesis
    unfolding list_item_record_def Let_def
    by (auto split: option.splits intro!: all_entries_setitem field_ok_str base)
qed

lemma card_record_ok: "all_entries field_ok (card_record i c)"
proof -
  have base: "all_entries field_ok [(''_card_index'', IntV (int i))]"
    by (simp add: all_entries_def field_ok_def index_fields_def)
  show ?thesis
    unfolding card_record_def Let_def
    by (auto intro!: all_entries_setitem all_entries_set_text all_entries_set_link
        all_entries_set_image field_ok_str field_ok_image base)
qed

lemma product_record_ok: "all_entries field_ok (product_record i p)"
proof -
  have base: "all_entries field_ok [(''_product_index'', IntV (int i))]"
    by (simp add: all_entries_def field_ok_def index_fields_def)
  show ?thesis
    unfolding product_record_def Let_def
    by (auto intro!: all_entries_set_text all_entries_set_link
        all_entries_set_image field_ok_str field_ok_image base)
qed

lemma truthy_src_is_str: "truthy (src_or_data_src img) \<Longrightarrow> is_str (src_or_data_src img)"
  by (auto simp: src_or_data_src_def opt_val_def split: option.splits if_splits)

lemma scrape_article_ok: "all_entries field_ok (scrape_article soup url)"
proof -
  have base: "all_entries field_ok [(''url'', StrV url)]"
    by (simp add: all_entries_def field_ok_def)
  have content: "all_entries field_ok d \<Longrightarrow> all_entries field_ok (set_content soup d)" for d
    unfolding set_content_def Let_def
    by (auto split: option.splits intro!: all_entries_setitem field_ok_str
        simp: field_ok_def)
  have images: "field_ok ''images''
      (ListV (map src_or_data_src (filter (\<lambda>img. truthy (src_or_data_src img)) imgs)))" for imgs
    by (simp add: field_ok_def list_all_iff truthy_src_is_str)
  show ?thesis
    unfolding scrape_article_def Let_def
    by (intro all_entries_setitem content all_entries_set_text base images field_ok_str) simp_all
qed

lemma heading_record_ok:
  "has_name names h \<Longrightarrow> all_entries field_ok (heading_record h sib)"
proof -
  assume "has_name names h"
  then obtain n where "tag_name h = Some n"
    by (auto simp: has_name_def split: option.splits)
  then have base: "all_entries field_ok
      [(''type'', opt_val (tag_name h)), (''text'', StrV (get_text_strip h))]"
    by (simp add: all_entries_def field_ok_def opt_val_def)
  show ?thesis
    unfolding heading_record_def Let_def
    by (auto split: option.splits intro!: all_entries_setitem field_ok_str base)
qed

lemma links_record_ok:
  "all_entries field_ok
     [(''type'', StrV ''links''),
      (''links'', ListV (map (\<lambda>(k, v). DictV [(''url'', StrV k), (''text'', StrV v)]) u))]"
  by (auto simp: all_entries_def field_ok_def list_all_iff)

lemma scrape_generic_ok: "r \<in> set (scrape_generic soup) \<Longrightarrow> all_entries field_ok r"
  unfolding scrape_generic_def Let_def
  by (auto split: if_splits intro: heading_record_ok links_record_ok)

lemma scrape_lists_ok: "r \<in> set (scrape_lists soup) \<Longrightarrow> all_entries field_ok r"
  unfolding scrape_lists_def scrape_list_def Let_def
  by (auto split: if_splits intro: list_item_record_ok)

lemma scrape_cards_ok: "r \<in> set (scrape_cards soup) \<Longrightarrow> all_entries field_ok r"
  unfolding scrape_cards_def
  by (auto intro: card_record_ok)

lemma scrape_products_ok: "r \<in> set (scrape_products soup) \<Longrightarrow> all_entries field_ok r"
  unfolding scrape_products_def products_loop_eq
  by (auto intro: product_record_ok)

lemma cells_loop_ok:
  "all_entries (\<lambda>k v. k = ''image'' \<or> value_ok k v) d
     \<Longrightarrow> all_entries (\<lambda>k v. k = ''image'' \<or> value_ok k v) (cells_loop headers cells d)"
  by (induction headers cells d rule: cells_loop.induct) (simp_all add: all_entries_setitem)

lemma rows_loop_ok:
  "r \<in> set (rows_loop i headers rows)
     \<Longrightarrow> all_entries (\<lambda>k v. k = ''image'' \<or> value_ok k v) r"
proof (induction rows)
  case Nil
  then show ?case by simp
next
  case (Cons row rows)
  have "all_entries (\<lambda>k v. k = ''image'' \<or> value_ok k v)
      (setitem ''_table_index'' (IntV (int i))
         (cells_loop headers (enumerate 0 (find_all (has_name cell_names) row)) []))"
    by (intro all_entries_setitem cells_loop_ok) (simp_all add: all_entries_def index_fields_def)
  with Cons show ?case
    by (auto simp: Let_def split: if_splits)
qed

lemma scrape_tables_ok:
  "r \<in> set (scrape_tables soup) \<Longrightarrow> all_entries (\<lambda>k v. k = ''image'' \<or> value_ok k v) r"
  unfolding scrape_tables_def scrape_table_def Let_def
  by (auto split: if_splits list.splits dest: rows_loop_ok)

lemma fields_loop_ok:
  "fields_loop sel c s item = Inr r \<Longrightarrow> set s \<subseteq> set s0
     \<Longrightarrow> all_entries (\<lambda>k v. is_str v \<and> k \<in> fst ` set s0 \<and> k \<noteq> ''container'') item
     \<Longrightarrow> all_entries (\<lambda>k v. is_str v \<and> k \<in> fst ` set s0 \<and> k \<noteq> ''container'') r"
proof (induction sel c s item rule: fields_loop.induct)
  case (1 sel container item)
  then show ?case by simp
next
  case (2 sel container field_name selector rest item)
  show ?case
  proof (cases "field_name = ''container''")
    case True
    with 2 show ?thesis by simp
  next
    case False
    have mem: "field_name \<in> fst ` set s0"
      using "2.prems"(2) by force
    show ?thesis
    proof (cases "select_one sel selector container")
      case (Inl e)
      with False "2.prems"(1) show ?thesis by simp
    next
      case (Inr found)
      show ?thesis
      proof (cases found)
        case None
        with Inr False 2 show ?thesis by simp
      next
        case (Some elem)
        have "all_entries (\<lambda>k v. is_str v \<and> k \<in> fst ` set s0 \<and> k \<noteq> ''container'')
            (setitem field_name (StrV (get_text_strip elem)) item)"
          using "2.prems"(3) mem False by (intro all_entries_setitem) simp_all
        with Some Inr False "2.IH"(3) "2.prems" show ?thesis by simp
      qed
    qed
  qed
qed

lemma containers_loop_ok:
  "containers_loop sel s cs = Inr data \<Longrightarrow> r \<in> set data
     \<Longrightarrow> all_entries (\<lambda>k v. is_str v \<and> k \<in> fst ` set s \<and> k \<noteq> ''container'') r"
proof (induction cs arbitrary: data)
  case Nil
  then show ?case by simp
next
  case (Cons c cs)
  from Cons.prems(1) obtain item rest where
    item: "fields_loop sel c s [] = Inr item"
    and rest: "containers_loop sel s cs = Inr rest"
    and data: "data = (if item \<noteq> [] then item # rest else rest)"
    by (auto split: sum.splits)
  have "all_entries (\<lambda>k v. is_str v \<and> k \<in> fst ` set s \<and> k \<noteq> ''container'') item"
    using fields_loop_ok [OF item, of s] by (simp add: all_entries_def)
  with Cons.IH [OF rest] Cons.prems(2) data show ?case
    by (auto split: if_splits)
qed

text \<open>C8, as the claim states it, fails on an article: the word count is an integer and
  the images are a list.\<close>

theorem article_record_has_other_values:
  "detect_page_type doc_article ''u'' = ''article''
   \<and> snd (auto_detect_and_scrape doc_article ''u'')
     = [[(''url'', StrV ''u''), (''title'', StrV ''Title''), (''content'', StrV ''two words''),
         (''word_count'', IntV 2), (''images'', ListV [StrV ''a.png''])]]"
  by code_simp

text \<open>
  C8, amended. In every record of the strategies, each field other than \<open>image\<close> holds
  a string, or an integer under an index field or \<open>word_count\<close>, or the list of strings
  \<open>images\<close>, or the list \<open>links\<close> of dictionaries with a \<open>url\<close> and a \<open>text\<close> string,
  and never a null; on pages that are not table pages the field names are non-empty. Every
  record of the extraction with given selectors maps field names of the configuration,
  other than \<open>container\<close>, to strings.
\<close>

theorem record_field_values:
  "(r \<in> set (snd (auto_detect_and_scrape soup url)) \<and> (k, v) \<in> set r \<and> k \<noteq> ''image''
      \<longrightarrow> value_ok k v \<and> (detect_page_type soup url \<noteq> ''table'' \<longrightarrow> k \<noteq> []))
   \<and> (snd (scrape_with_selectors sel soup s) = Inr data \<and> r \<in> set data \<and> (k, v) \<in> set r
      \<longrightarrow> is_str v \<and> k \<in> fst ` set s \<and> k \<noteq> ''container'')"
proof -
  have auto1: "value_ok k v \<and> (detect_page_type soup url \<noteq> ''table'' \<longrightarrow> k \<noteq> [])"
    if h: "r \<in> set (snd (auto_detect_and_scrape soup url))" "(k, v) \<in> set r" "k \<noteq> ''image''"
  proof (cases "detect_page_type soup url = ''table''")
    case True
    with h(1) have "r \<in> set (scrape_tables soup)"
      by (simp add: auto_detect_and_scrape_def)
    from scrape_tables_ok [OF this] h(2,3) True show ?thesis
      by (auto simp: all_entries_iff)
  next
    case False
    with h(1) have "all_entries field_ok r"
      by (auto simp: auto_detect_and_scrape_def Let_def split: if_splits
          intro: scrape_lists_ok scrape_cards_ok scrape_article_ok scrape_products_ok
            scrape_generic_ok)
    with h(2,3) show ?thesis
      by (auto simp: all_entries_iff field_ok_def)
  qed
  have sel1: "is_str v \<and> k \<in> fst ` set s \<and> k \<noteq> ''container''"
    if h: "snd (scrape_with_selectors sel soup s) = Inr data" "r \<in> set data" "(k, v) \<in> set r"
  proof -
    from h(1) obtain cs where "containers_loop sel s cs = Inr data"
      by (auto simp: scrape_with_selectors_def Let_def split: sum.splits)
    from containers_loop_ok [OF this h(2)] h(3) show ?thesis
      by (auto simp: all_entries_iff)
  qed
  from auto1 sel1 show ?thesis by blast
qed

theorem record_field_values_witness:
  "[(''url'', StrV ''u''), (''title'', StrV ''Title''), (''content'', StrV ''two words''),
    (''word_count'', IntV 2), (''images'', ListV [StrV ''a.png''])]
     \<in> set (snd (auto_detect_and_scrape doc_article ''u''))
   \<and> value_ok ''word_count'' (IntV 2)
   \<and> snd (scrape_with_selectors type_select doc_body
            [(''container'', ''section''), (''heading'', ''h2'')])
       = Inr [[(''heading'', StrV ''First'')], [(''heading'', StrV ''Third'')]]
   \<and> is_str (StrV ''First'')
   \<and> ''heading'' \<in> fst ` set [(''container'', ''section''), (''heading'', ''h2'')]"
proof -
  let ?r = "[(''url'', StrV ''u''), (''title'', StrV ''Title''), (''content'', StrV ''two words''),
    (''word_count'', IntV 2), (''images'', ListV [StrV ''a.png''])]"
  let ?s = "[(''container'', ''section''), (''heading'', ''h2'')]"
  let ?data = "[[(''heading'', StrV ''First'')], [(''heading'', StrV ''Third'')]]"
  have a1: "?r \<in> set (snd (auto_detect_and_scrape doc_article ''u''))"
    by code_simp
  have a2: "(''word_count'', IntV 2) \<in> set ?r" "''word_count'' \<noteq> ''image''"
    by simp_all
  have b1: "snd (scrape_with_selectors type_select doc_body ?s) = Inr ?data"
    by code_simp
  have b2: "[(''heading'', StrV ''First'')] \<in> set ?data"
    "(''heading'', StrV ''First'') \<in> set [(''heading'', StrV ''First'')]"
    by simp_all
  have r1: "value_ok ''word_count'' (IntV 2)"
    using record_field_values [of ?r doc_article "''u''" "''word_count''" "IntV 2"] a1 a2
    by blast
  have r2: "is_str (StrV ''First'') \<and> ''heading'' \<in> fst ` set ?s"
    using record_field_values
      [of "[(''heading'', StrV ''First'')]" doc_body _ "''heading''" "StrV ''First''" type_select ?s ?data]
      b1 b2
    by blast
  from a1 r1 b1 r2 show ?thesis by blast
qed

end
